theory Spec2Isabelle
  imports Complex_Main "HOL-Library.AList" "HOL-Library.Log_Nat"
begin

section \<open>Data model\<close>

text \<open>
  A row of the \<open>tasks\<close> table (\<open>README\<close>, "Supabase Schema"; the client-side
  \<open>Task\<close> interface). \<open>status\<close> is constrained by a \<open>CHECK\<close> to three values.
  \<open>extras\<close> is a nullable JSONB column with three optional members. Timestamps are
  instants in milliseconds since the epoch, in UTC (the representation of a JavaScript
  \<open>Date\<close>); the ISO strings exchanged between the edge function and the database denote
  such instants.
\<close>

type_synonym instant = int

datatype status = Pending | InProgress | Done

record extras =
  priority :: "string option"
  due_date :: "instant option"
  tags :: "string list option"

record task =
  task_id :: string
  user_id :: string
  title :: string
  status :: status
  extras :: "extras option"
  inserted_at :: instant

text \<open>
  The report, interface \<open>TaskAnalytics\<close>. A JavaScript number (an IEEE 754 double)
  and a PostgreSQL \<open>NUMERIC\<close> value are held as the rational they denote; section
  \<open>Numbers\<close> has their arithmetic. Counters are naturals. A member
  of \<open>tasksByPriority\<close> or \<open>tasksByTag\<close> can become \<open>NaN\<close> or a string on the
  in-memory path, so their values have a type of their own: a number, \<open>NaN\<close>, or some
  string. A month key \<open>YYYY-MM\<close> is the pair of the year and the month number 1..12.
\<close>

datatype count = Num nat | NaN | Str

type_synonym month_key = "int \<times> int"

record trend =
  month :: month_key
  completed :: nat
  created :: nat

record deadline =
  taskId :: string
  dl_title :: string
  dueDate :: "instant option"
  dl_priority :: string

record analytics =
  totalTasks :: nat
  completedTasks :: nat
  pendingTasks :: nat
  inProgressTasks :: nat
  completionRate :: rat
  averageCompletionTime :: nat
  overdueTasks :: nat
  tasksByPriority :: "(string \<times> count) list"
  tasksByTag :: "(string \<times> count) list"
  productivityScore :: int
  monthlyTrends :: "trend list"
  upcomingDeadlines :: "deadline list"

section \<open>Calendar arithmetic\<close>

text \<open>
  Day numbers and civil dates of the proleptic Gregorian calendar, as ECMAScript's
  \<open>Day\<close>, \<open>TimeWithinDay\<close>, \<open>YearFromTime\<close>, \<open>MonthFromTime\<close>, \<open>DateFromTime\<close>
  and \<open>MakeDay\<close> compute them. Months are 1..12 in \<open>days_from_civil\<close> and
  \<open>civil_from_days\<close>, and 0..11 in the \<open>Date\<close> methods, as in JavaScript. The local
  time zone of the edge runtime and the time zone of the database session are UTC.
\<close>

definition msPerDay :: int where
  "msPerDay = 86400000"

definition Day :: "instant \<Rightarrow> int" where
  "Day t = t div msPerDay"

definition TimeWithinDay :: "instant \<Rightarrow> int" where
  "TimeWithinDay t = t mod msPerDay"

definition days_from_civil :: "int \<Rightarrow> int \<Rightarrow> int \<Rightarrow> int" where
  "days_from_civil y m d =
     (let y' = (if m \<le> 2 then y - 1 else y);
          era = y' div 400;
          yoe = y' - era * 400;
          mp = (m + 9) mod 12;
          doy = (153 * mp + 2) div 5 + d - 1;
          doe = yoe * 365 + yoe div 4 - yoe div 100 + doy
      in era * 146097 + doe - 719468)"

definition civil_from_days :: "int \<Rightarrow> int \<times> int \<times> int" where
  "civil_from_days z =
     (let z' = z + 719468;
          era = z' div 146097;
          doe = z' - era * 146097;
          yoe = (doe - doe div 1460 + doe div 36524 - doe div 146096) div 365;
          doy = doe - (365 * yoe + yoe div 4 - yoe div 100);
          mp = (5 * doy + 2) div 153;
          d = doy - (153 * mp + 2) div 5 + 1;
          m = (if mp < 10 then mp + 3 else mp - 9);
          y = yoe + era * 400
      in (if m \<le> 2 then y + 1 else y, m, d))"

definition getFullYear :: "instant \<Rightarrow> int" where
  "getFullYear t = fst (civil_from_days (Day t))"

definition getMonth :: "instant \<Rightarrow> int" where
  "getMonth t = fst (snd (civil_from_days (Day t))) - 1"

definition getDate :: "instant \<Rightarrow> int" where
  "getDate t = snd (snd (civil_from_days (Day t)))"

definition MakeDay :: "int \<Rightarrow> int \<Rightarrow> int \<Rightarrow> int" where
  "MakeDay year mon dt = days_from_civil (year + mon div 12) (mon mod 12 + 1) 1 + dt - 1"

definition setMonth :: "instant \<Rightarrow> int \<Rightarrow> instant" where
  "setMonth t mon = MakeDay (getFullYear t) mon (getDate t) * msPerDay + TimeWithinDay t"

definition setDate :: "instant \<Rightarrow> int \<Rightarrow> instant" where
  "setDate t dt = MakeDay (getFullYear t) (getMonth t) dt * msPerDay + TimeWithinDay t"

definition utc :: "int \<Rightarrow> int \<Rightarrow> int \<Rightarrow> instant" where
  "utc y m d = days_from_civil y m d * msPerDay"

text \<open>\<open>toISOString().slice(0, 7)\<close> and \<open>to_char(ts, 'YYYY-MM')\<close>: the month key.\<close>

definition iso_month :: "instant \<Rightarrow> month_key" where
  "iso_month t = (getFullYear t, getMonth t + 1)"

definition month_index :: "month_key \<Rightarrow> int" where
  "month_index k = fst k * 12 + (snd k - 1)"

text \<open>
  PostgreSQL's \<open>timestamp - interval 'n months'\<close>: the month moves back, the day of
  the month is clamped to the last day of the target month.
\<close>

definition isleap :: "int \<Rightarrow> bool" where
  "isleap y = (y mod 4 = 0 \<and> (y mod 100 \<noteq> 0 \<or> y mod 400 = 0))"

definition days_in_month :: "int \<Rightarrow> int \<Rightarrow> int" where
  "days_in_month y m =
     (if m = 2 then (if isleap y then 29 else 28)
      else if m = 4 \<or> m = 6 \<or> m = 9 \<or> m = 11 then 30 else 31)"

definition minus_months :: "instant \<Rightarrow> int \<Rightarrow> instant" where
  "minus_months t n =
     (let y = getFullYear t; m0 = getMonth t - n; d = getDate t;
          y' = y + m0 div 12; m' = m0 mod 12 + 1
      in days_from_civil y' m' (min d (days_in_month y' m')) * msPerDay + TimeWithinDay t)"

section \<open>Numbers\<close>

text \<open>
  A JavaScript number is an IEEE 754 binary64 value. A finite one is an integer
  significand of at most 53 bits times a power of two whose exponent is at least
  \<open>-1074\<close>. Every arithmetic operation yields the double nearest to the exact result,
  and of two equally near ones the one with the even significand: \<open>fl\<close> is this
  rounding. A decimal literal such as \<open>0.4\<close> denotes the double nearest to it. The
  numbers of this program are row counts and values between 0 and 25 times a row count,
  far below the largest finite double, so no operation here overflows.
\<close>

definition pow2 :: "int \<Rightarrow> rat" where
  "pow2 e = (if 0 \<le> e then 2 ^ nat e else 1 / 2 ^ nat (- e))"

text \<open>The binary exponent of a positive rational \<open>x\<close>: the \<open>e\<close> with \<open>2^e \<le> x < 2^(e+1)\<close>.\<close>

definition ilog2 :: "rat \<Rightarrow> int" where
  "ilog2 x =
     (let (a, b) = quotient_of x; d = bitlen a - bitlen b
      in if pow2 d \<le> x then d else d - 1)"

definition round_half_even :: "rat \<Rightarrow> int" where
  "round_half_even x =
     (let f = \<lfloor>x\<rfloor>; r = x - of_int f
      in if r < 1 / 2 then f else if 1 / 2 < r then f + 1 else if even f then f else f + 1)"

definition fl :: "rat \<Rightarrow> rat" where
  "fl x =
     (if x = 0 then 0
      else let e = max (ilog2 \<bar>x\<bar> - 52) (- 1074)
           in of_int (round_half_even (x / pow2 e)) * pow2 e)"

text \<open>
  The JavaScript operators \<open>+\<close>, \<open>-\<close>, \<open>*\<close> and \<open>/\<close> on numbers (the divisor is
  not zero where the program divides), and a count read as a number.
\<close>

definition js_plus :: "rat \<Rightarrow> rat \<Rightarrow> rat" where
  "js_plus a b = fl (a + b)"

definition js_minus :: "rat \<Rightarrow> rat \<Rightarrow> rat" where
  "js_minus a b = fl (a - b)"

definition js_times :: "rat \<Rightarrow> rat \<Rightarrow> rat" where
  "js_times a b = fl (a * b)"

definition js_divide :: "rat \<Rightarrow> rat \<Rightarrow> rat" where
  "js_divide a b = fl (a / b)"

definition js_number :: "nat \<Rightarrow> rat" where
  "js_number n = fl (of_nat n)"

text \<open>
  \<open>Math.round\<close> yields the nearest integer, and of two equally near ones the larger;
  \<open>Math.max\<close> and \<open>Math.min\<close> select one of their arguments.
\<close>

definition Math_round :: "rat \<Rightarrow> int" where
  "Math_round x = \<lfloor>x + 1 / 2\<rfloor>"

definition Math_max :: "rat \<Rightarrow> rat \<Rightarrow> rat" where
  "Math_max a b = (if a < b then b else a)"

definition Math_min :: "rat \<Rightarrow> rat \<Rightarrow> rat" where
  "Math_min a b = (if b < a then b else a)"

text \<open>
  A PostgreSQL \<open>NUMERIC\<close> is a decimal fraction. Its sums, differences and products are
  exact. A quotient is rounded, halves away from zero, to the scale chosen by
  \<open>select_div_scale\<close>: the scale that gives at least 16 significant digits to a quotient
  whose weight is estimated from the operands' leading digits in base 10000. The operands
  of the two divisions of the function are integer counts cast to \<open>NUMERIC\<close>, of display
  scale 0, so the scale is at least 16; a denominator of zero does not occur.
  \<open>ROUND\<close> rounds halves away from zero; \<open>GREATEST\<close> and \<open>LEAST\<close> select one of their
  arguments.
\<close>

fun first_digit :: "nat \<Rightarrow> nat \<times> nat" where
  "first_digit n =
     (if n < 10000 then (0, n)
      else (fst (first_digit (n div 10000)) + 1, snd (first_digit (n div 10000))))"

definition select_div_scale :: "nat \<Rightarrow> nat \<Rightarrow> nat" where
  "select_div_scale var1 var2 =
     (let weight1 = fst (first_digit var1); firstdigit1 = snd (first_digit var1);
          weight2 = fst (first_digit var2); firstdigit2 = snd (first_digit var2);
          qweight = int weight1 - int weight2 - (if firstdigit1 \<le> firstdigit2 then 1 else 0);
          rscale = 16 - qweight * 4
      in nat (min (max rscale 0) 1000))"

definition numeric_div :: "nat \<Rightarrow> nat \<Rightarrow> rat" where
  "numeric_div var1 var2 =
     (let rscale = select_div_scale var1 var2
      in of_int \<lfloor>(of_nat var1 / of_nat var2 * 10 ^ rscale + 1 / 2 :: rat)\<rfloor> / 10 ^ rscale)"

definition ROUND :: "rat \<Rightarrow> int" where
  "ROUND x = (if 0 \<le> x then \<lfloor>x + 1 / 2\<rfloor> else - \<lfloor>- x + 1 / 2\<rfloor>)"

definition pg_greatest :: "rat \<Rightarrow> rat \<Rightarrow> rat" where
  "pg_greatest a b = (if a < b then b else a)"

definition pg_least :: "rat \<Rightarrow> rat \<Rightarrow> rat" where
  "pg_least a b = (if b < a then b else a)"

section \<open>Reading a row\<close>

text \<open>
  \<open>extras->>'due_date'\<close>, \<open>extras->>'priority'\<close> and \<open>extras->'tags'\<close> in SQL,
  \<open>task.extras?.due_date\<close> and so on in TypeScript: \<open>NULL\<close> or \<open>undefined\<close> when
  the column or the member is absent.
\<close>

definition extras_due_date :: "task \<Rightarrow> instant option" where
  "extras_due_date t = (case extras t of None \<Rightarrow> None | Some e \<Rightarrow> due_date e)"

definition extras_priority :: "task \<Rightarrow> string option" where
  "extras_priority t = (case extras t of None \<Rightarrow> None | Some e \<Rightarrow> priority e)"

definition extras_tags :: "task \<Rightarrow> string list option" where
  "extras_tags t = (case extras t of None \<Rightarrow> None | Some e \<Rightarrow> tags e)"

text \<open>The sort key of \<open>ORDER BY (extras->>'due_date')\<close>, used on rows that have a due date.\<close>

definition due_key :: "task \<Rightarrow> instant" where
  "due_key t = (case extras_due_date t of None \<Rightarrow> 0 | Some d \<Rightarrow> d)"

section \<open>The bulk strategy: SQL function \<open>get_task_analytics\<close>\<close>

text \<open>\<open>FROM tasks WHERE user_id = p_user_id\<close>.\<close>

definition owner_rows :: "task list \<Rightarrow> string \<Rightarrow> task list" where
  "owner_rows tasks p_user_id = filter (\<lambda>t. user_id t = p_user_id) tasks"

text \<open>\<open>COUNT(*) FILTER (WHERE c)\<close>: a row counts when the condition is true, not when it is \<open>NULL\<close>.\<close>

definition count_filter :: "(task \<Rightarrow> bool) \<Rightarrow> task list \<Rightarrow> nat" where
  "count_filter c rows = length (filter c rows)"

definition is_overdue :: "instant \<Rightarrow> task \<Rightarrow> bool" where
  "is_overdue p_now t =
     (status t \<noteq> Done \<and> (case extras_due_date t of None \<Rightarrow> False | Some d \<Rightarrow> d < p_now))"

text \<open>
  \<open>completion_rate := (completed_tasks::NUMERIC / total_tasks) * 100\<close> under
  \<open>IF total_tasks > 0\<close>, and the \<open>ROUND(CASE \<dots> END)\<close> assigned to
  \<open>productivity_score\<close>, which reads the variable \<open>completion_rate\<close>. The counts
  are within the range of \<open>INTEGER\<close>, as are \<open>total_tasks * 10\<close> and
  \<open>in_progress_tasks * 25\<close>.
\<close>

definition rate_stmt :: "nat \<Rightarrow> nat \<Rightarrow> rat" where
  "rate_stmt n_total n_completed =
     (if n_total > 0 then numeric_div n_completed n_total * 100 else 0)"

definition score_stmt :: "nat \<Rightarrow> nat \<Rightarrow> nat \<Rightarrow> nat \<Rightarrow> int" where
  "score_stmt n_total n_completed n_overdue n_in_progress =
     ROUND (if n_total = 0 then 0
            else rate_stmt n_total n_completed * (4 / 10)
               + pg_greatest 0 (100 - (numeric_div n_overdue n_total * 100)) * (3 / 10)
               + pg_least 100 (of_nat (n_total * 10)) * (2 / 10)
               + pg_least 100 (of_nat (n_in_progress * 25)) * (1 / 10))"

text \<open>
  The scalar variables of the function after its first three statements: the counting
  \<open>SELECT \<dots> INTO\<close>, the assignment of \<open>completion_rate\<close> and the assignment of
  \<open>productivity_score\<close>.
\<close>

record scalars =
  total_tasks :: nat
  completed_tasks :: nat
  pending_tasks :: nat
  in_progress_tasks :: nat
  overdue_tasks :: nat
  completion_rate :: rat
  productivity_score :: int

definition scalar_statements :: "task list \<Rightarrow> string \<Rightarrow> instant \<Rightarrow> scalars" where
  "scalar_statements tasks p_user_id p_now =
     (let rows = owner_rows tasks p_user_id;
          n_total = count_filter (\<lambda>t. True) rows;
          n_completed = count_filter (\<lambda>t. status t = Done) rows;
          n_pending = count_filter (\<lambda>t. status t = Pending) rows;
          n_in_progress = count_filter (\<lambda>t. status t = InProgress) rows;
          n_overdue = count_filter (is_overdue p_now) rows
      in \<lparr>total_tasks = n_total,
          completed_tasks = n_completed,
          pending_tasks = n_pending,
          in_progress_tasks = n_in_progress,
          overdue_tasks = n_overdue,
          completion_rate = rate_stmt n_total n_completed,
          productivity_score = score_stmt n_total n_completed n_overdue n_in_progress\<rparr>)"

text \<open>\<open>GROUP BY k\<close> with \<open>COUNT(*)\<close>: one row per distinct key.\<close>

definition group_count :: "'a list \<Rightarrow> ('a \<times> nat) list" where
  "group_count ks = map (\<lambda>k. (k, count_list ks k)) (remdups ks)"

definition coalesce_priority :: "task \<Rightarrow> string" where
  "coalesce_priority t = (case extras_priority t of None \<Rightarrow> ''medium'' | Some p \<Rightarrow> p)"

text \<open>
  The statement that fills \<open>priority_counts\<close> selects from the subquery \<open>pc\<close>, whose
  columns are \<open>priority\<close> and \<open>priority_count\<close>, and its select list is
  \<open>json_object_agg(COALESCE(extras->>'priority', 'medium'), priority_count)\<close>. No column
  \<open>extras\<close> is in scope there and no variable of the function has that name, so the
  statement raises \<open>undefined_column\<close> when it is executed, whatever the rows are.
\<close>

datatype sql_error = undefined_column string

definition priority_counts :: "task list \<Rightarrow> sql_error + (string \<times> count) list" where
  "priority_counts rows = Inl (undefined_column ''extras'')"

text \<open>\<open>jsonb_array_elements_text(extras->'tags')\<close> over the rows where \<open>extras->'tags' IS NOT NULL\<close>.\<close>

definition tag_elements :: "task list \<Rightarrow> string list" where
  "tag_elements rows =
     concat (map (\<lambda>t. case extras_tags t of None \<Rightarrow> [] | Some ts \<Rightarrow> ts) rows)"

text \<open>
  \<open>ORDER BY COUNT(*) DESC LIMIT 20\<close> names no second key, so which of the groups with
  equal counts come first, and which of them pass the limit, is left to the executor. The
  executor's order of the groups is the parameter \<open>tie_order\<close>, a rank for every tag;
  groups of equal count and equal rank stay in the order of first occurrence.
\<close>

definition tag_counts :: "(string \<Rightarrow> nat) \<Rightarrow> task list \<Rightarrow> (string \<times> nat) list" where
  "tag_counts tie_order rows =
     take 20 (sort_key (\<lambda>(tag, tag_count). - int tag_count)
                (sort_key (\<lambda>(tag, tag_count). tie_order tag) (group_count (tag_elements rows))))"

text \<open>
  \<open>CURRENT_DATE\<close> is midnight of the database's day; the function reads it from the
  database clock, which is a parameter here.
\<close>

definition CURRENT_DATE :: "instant \<Rightarrow> instant" where
  "CURRENT_DATE db_clock = Day db_clock * msPerDay"

definition monthly_trends :: "task list \<Rightarrow> instant \<Rightarrow> trend list" where
  "monthly_trends rows db_clock =
     (let recent = filter (\<lambda>t. minus_months (CURRENT_DATE db_clock) 6 \<le> inserted_at t) rows;
          month_year = (\<lambda>t. iso_month (inserted_at t))
      in sort_key (\<lambda>r. month_index (month r))
           (map (\<lambda>k. \<lparr>month = k,
                       completed = count_filter (\<lambda>t. status t = Done) (filter (\<lambda>t. month_year t = k) recent),
                       created = length (filter (\<lambda>t. month_year t = k) recent)\<rparr>)
                (remdups (map month_year recent))))"

definition upcoming_deadlines :: "task list \<Rightarrow> instant \<Rightarrow> instant \<Rightarrow> deadline list" where
  "upcoming_deadlines rows p_now p_next_week =
     map (\<lambda>t. \<lparr>taskId = task_id t, dl_title = title t, dueDate = extras_due_date t,
               dl_priority = coalesce_priority t\<rparr>)
         (sort_key due_key
            (take 10 (sort_key due_key
               (filter (\<lambda>t. status t \<noteq> Done
                           \<and> (case extras_due_date t of None \<Rightarrow> False
                               | Some d \<Rightarrow> p_now \<le> d \<and> d \<le> p_next_week)) rows))))"

text \<open>
  The function runs its statements in order and builds the result at the end; an error
  raised by a statement ends the call with that error. What the function reads besides
  its arguments is a parameter: the table, the database clock and the executor's order of
  tied tag groups.
\<close>

definition get_task_analytics ::
  "task list \<Rightarrow> instant \<Rightarrow> (string \<Rightarrow> nat) \<Rightarrow> string \<Rightarrow> instant \<Rightarrow> instant
     \<Rightarrow> sql_error + analytics" where
  "get_task_analytics tasks db_clock tie_order p_user_id p_now p_next_week =
     (let rows = owner_rows tasks p_user_id;
          v = scalar_statements tasks p_user_id p_now
      in case priority_counts rows of
           Inl e \<Rightarrow> Inl e
         | Inr pc \<Rightarrow>
             Inr \<lparr>totalTasks = total_tasks v,
                  completedTasks = completed_tasks v,
                  pendingTasks = pending_tasks v,
                  inProgressTasks = in_progress_tasks v,
                  completionRate = completion_rate v,
                  averageCompletionTime = 24,
                  overdueTasks = overdue_tasks v,
                  tasksByPriority = pc,
                  tasksByTag = map (\<lambda>(tag, tag_count). (tag, Num tag_count)) (tag_counts tie_order rows),
                  productivityScore = productivity_score v,
                  monthlyTrends = monthly_trends rows db_clock,
                  upcomingDeadlines = upcoming_deadlines rows p_now p_next_week\<rparr>)"

section \<open>The fallback strategy: the edge function's own queries\<close>

text \<open>
  A supabase-js query is a chain of filters and modifiers on a table, sent as one
  PostgREST request. The request yields rows or an error of the database. \<open>eq\<close> and
  \<open>neq\<close> compare the columns \<open>user_id\<close> and \<open>status\<close> with a text.

  The column path \<open>extras->due_date\<close> of \<open>lt\<close> and \<open>gte\<close> denotes the JSONB value
  \<open>extras->'due_date'\<close> (the text of the member is \<open>extras->>due_date\<close>), and
  PostgREST hands the operand to the database as an untyped literal, which the database
  reads as JSONB for this comparison. The operand is the text of \<open>toISOString()\<close>, such
  as \<open>2024-03-01T00:00:00.000Z\<close>, which is not a JSON text, so the database rejects
  the statement with \<open>invalid_text_representation\<close> (SQLSTATE 22P02) whatever the rows
  are. The SQL function compares \<open>(extras->>'due_date')::timestamp\<close> instead.
\<close>

datatype postgrest_error = invalid_text_representation

type_synonym query = "postgrest_error + task list"

definition from_tasks :: "task list \<Rightarrow> query" where
  "from_tasks tbl = Inr tbl"

definition where_rows :: "(task \<Rightarrow> bool) \<Rightarrow> query \<Rightarrow> query" where
  "where_rows c q = (case q of Inl e \<Rightarrow> Inl e | Inr rows \<Rightarrow> Inr (filter c rows))"

definition eq_user_id :: "string \<Rightarrow> query \<Rightarrow> query" where
  "eq_user_id uid q = where_rows (\<lambda>t. user_id t = uid) q"

definition eq_status :: "status \<Rightarrow> query \<Rightarrow> query" where
  "eq_status s q = where_rows (\<lambda>t. status t = s) q"

definition neq_status :: "status \<Rightarrow> query \<Rightarrow> query" where
  "neq_status s q = where_rows (\<lambda>t. status t \<noteq> s) q"

definition lt_due_date :: "instant \<Rightarrow> query \<Rightarrow> query" where
  "lt_due_date operand q = (case q of Inl e \<Rightarrow> Inl e | Inr rows \<Rightarrow> Inl invalid_text_representation)"

definition gte_due_date :: "instant \<Rightarrow> query \<Rightarrow> query" where
  "gte_due_date operand q = (case q of Inl e \<Rightarrow> Inl e | Inr rows \<Rightarrow> Inl invalid_text_representation)"

text \<open>
  \<open>order("inserted_at", {ascending: false})\<close>, \<open>order("extras->due_date", {ascending:
  true})\<close> and \<open>limit(n)\<close>.
\<close>

definition order_inserted_at_desc :: "query \<Rightarrow> query" where
  "order_inserted_at_desc q =
     (case q of Inl e \<Rightarrow> Inl e | Inr rows \<Rightarrow> Inr (sort_key (\<lambda>t. - inserted_at t) rows))"

definition order_due_date_asc :: "query \<Rightarrow> query" where
  "order_due_date_asc q =
     (case q of Inl e \<Rightarrow> Inl e | Inr rows \<Rightarrow> Inr (sort_key due_key rows))"

definition limit :: "nat \<Rightarrow> query \<Rightarrow> query" where
  "limit n q = (case q of Inl e \<Rightarrow> Inl e | Inr rows \<Rightarrow> Inr (take n rows))"

text \<open>
  What \<open>await\<close> yields for a request: on rows, \<open>data\<close> is the rows and, with
  \<open>{count: 'exact', head: true}\<close>, \<open>count\<close> is their number; on an error both are
  \<open>null\<close>, and the handler does not read the \<open>error\<close> member of these requests. It
  reads a count as \<open>count || 0\<close>.
\<close>

definition select_count :: "query \<Rightarrow> nat option" where
  "select_count q = (case q of Inl e \<Rightarrow> None | Inr rows \<Rightarrow> Some (length rows))"

definition select_data :: "query \<Rightarrow> task list option" where
  "select_data q = (case q of Inl e \<Rightarrow> None | Inr rows \<Rightarrow> Some rows)"

definition or_zero :: "nat option \<Rightarrow> nat" where
  "or_zero c = (case c of None \<Rightarrow> 0 | Some n \<Rightarrow> n)"

text \<open>
  The score before \<open>Math.round\<close>: \<open>score\<close> starts at 0 and the four \<open>score += \<dots>\<close>
  run when \<open>totalTasks > 0\<close>, each operation in double arithmetic.
\<close>

definition score :: "nat \<Rightarrow> rat \<Rightarrow> nat \<Rightarrow> nat \<Rightarrow> rat" where
  "score n_total rate n_overdue n_in_progress =
     (if n_total > 0
      then (let s1 = js_plus 0 (js_times rate (fl (4 / 10)));
                s2 = js_plus s1
                       (js_times
                          (Math_max 0
                             (js_minus 100
                                (js_times (js_divide (js_number n_overdue) (js_number n_total)) 100)))
                          (fl (3 / 10)));
                s3 = js_plus s2 (js_times (Math_min 100 (js_times (js_number n_total) 10)) (fl (2 / 10)));
                s4 = js_plus s3
                       (js_times (Math_min 100 (js_times (js_number n_in_progress) 25)) (fl (1 / 10)))
            in s4)
      else 0)"

text \<open>
  The sample: \<open>.eq("user_id", user.id).order("inserted_at", {ascending: false}).limit(1000)\<close>.
\<close>

definition recentTasks :: "task list \<Rightarrow> string \<Rightarrow> task list option" where
  "recentTasks tbl uid =
     select_data (limit 1000 (order_inserted_at_desc (eq_user_id uid (from_tasks tbl))))"

text \<open>\<open>task.extras?.priority || "medium"\<close>: the empty string is falsy too.\<close>

definition priority_or_medium :: "task \<Rightarrow> string" where
  "priority_or_medium t =
     (case extras_priority t of None \<Rightarrow> ''medium''
      | Some p \<Rightarrow> if p = [] then ''medium'' else p)"

text \<open>
  \<open>tasksByPriority\<close> and \<open>tasksByTag\<close> are plain objects, modelled by the list of their
  own members in insertion order (JavaScript lists integer-like keys first; none occurs in
  the statements below). A plain object inherits the members of \<open>Object.prototype\<close>:
  reading such a member that the object does not have itself yields the inherited function
  (for \<open>__proto__\<close>, the prototype object), and assigning a value that is not an object
  to \<open>__proto__\<close> changes nothing.
\<close>

definition Object_prototype :: "string list" where
  "Object_prototype =
     [''constructor'', ''__defineGetter__'', ''__defineSetter__'', ''hasOwnProperty'',
      ''__lookupGetter__'', ''__lookupSetter__'', ''isPrototypeOf'', ''propertyIsEnumerable'',
      ''toString'', ''valueOf'', ''__proto__'', ''toLocaleString'']"

text \<open>
  \<open>obj[key]++\<close>: the member is read as a number, and \<open>undefined\<close>, a function and a
  string that is not a numeral all read as \<open>NaN\<close>, whose successor is \<open>NaN\<close>.
\<close>

fun plus_plus :: "count option \<Rightarrow> count" where
  "plus_plus None = NaN"
| "plus_plus (Some NaN) = NaN"
| "plus_plus (Some Str) = NaN"
| "plus_plus (Some (Num n)) = Num (n + 1)"

definition count_priority :: "task \<Rightarrow> (string \<times> count) list \<Rightarrow> (string \<times> count) list" where
  "count_priority t obj =
     (let p = priority_or_medium t
      in if p = ''__proto__'' then obj else AList.update p (plus_plus (map_of obj p)) obj)"

text \<open>
  \<open>tasksByTag[tag] = (tasksByTag[tag] || 0) + 1\<close>. For a member of its own: a number
  \<open>n\<close> gives \<open>n + 1\<close>, \<open>NaN\<close> is falsy and gives 1, a string gives a longer string.
  Without a member of its own, a tag that names an inherited member reads as a function,
  and a function plus 1 is a string; any other tag reads as \<open>undefined\<close> and gives 1.
\<close>

fun or_zero_plus_one :: "count \<Rightarrow> count" where
  "or_zero_plus_one (Num n) = Num (n + 1)"
| "or_zero_plus_one NaN = Num 1"
| "or_zero_plus_one Str = Str"

definition count_tag :: "string \<Rightarrow> (string \<times> count) list \<Rightarrow> (string \<times> count) list" where
  "count_tag tag obj =
     (if tag = ''__proto__'' then obj
      else case map_of obj tag of
             Some v \<Rightarrow> AList.update tag (or_zero_plus_one v) obj
           | None \<Rightarrow> AList.update tag (if tag \<in> set Object_prototype then Str else Num 1) obj)"

definition count_tags :: "task \<Rightarrow> (string \<times> count) list \<Rightarrow> (string \<times> count) list" where
  "count_tags t obj = fold count_tag (case extras_tags t of None \<Rightarrow> [] | Some ts \<Rightarrow> ts) obj"

text \<open>
  \<open>last6Months\<close>: for \<open>i = 0..5\<close>, a fresh \<open>Date\<close> whose month is set back by \<open>i\<close>,
  cut to \<open>YYYY-MM\<close>, the list reversed. The six \<open>new Date()\<close> read one clock value.
\<close>

definition last6Months :: "instant \<Rightarrow> month_key list" where
  "last6Months clock =
     rev (map (\<lambda>i. iso_month (setMonth clock (getMonth clock - int i))) [0..<6])"

text \<open>\<open>monthlyData\<close>: a \<open>Map\<close> from month key to \<open>{completed, created}\<close>, in insertion order.\<close>

definition count_month :: "task \<Rightarrow> (month_key \<times> nat \<times> nat) list \<Rightarrow> (month_key \<times> nat \<times> nat) list" where
  "count_month t monthlyData =
     (let createdMonth = iso_month (inserted_at t)
      in case map_of monthlyData createdMonth of
           None \<Rightarrow> monthlyData
         | Some (compl, creat) \<Rightarrow>
             AList.update createdMonth
               (if status t = Done then compl + 1 else compl, creat + 1) monthlyData)"

definition monthlyTrends_of :: "task list \<Rightarrow> instant \<Rightarrow> trend list" where
  "monthlyTrends_of ts clock =
     (let monthlyData = fold (\<lambda>m md. AList.update m (0, 0) md) (last6Months clock) []
      in map (\<lambda>(m, compl, creat). \<lparr>month = m, completed = compl, created = creat\<rparr>)
           (fold count_month ts monthlyData))"

text \<open>
  The query for the upcoming deadlines:
  \<open>.eq("user_id", user.id).neq("status", "done").gte("extras->due_date", now)
  .lt("extras->due_date", nextWeekISO).order("extras->due_date", {ascending: true}).limit(10)\<close>.
\<close>

definition upcomingTasks :: "task list \<Rightarrow> string \<Rightarrow> instant \<Rightarrow> instant \<Rightarrow> task list option" where
  "upcomingTasks tbl uid now nextWeekISO =
     select_data
       (limit 10 (order_due_date_asc
          (lt_due_date nextWeekISO (gte_due_date now
             (neq_status Done (eq_user_id uid (from_tasks tbl)))))))"

text \<open>
  The report of the fallback path. The five counts are read as \<open>count || 0\<close>; the
  completion rate is \<open>totalTasks > 0 ? ((completedTasks || 0) / totalTasks) * 100 : 0\<close>.
\<close>

definition fallback_analytics :: "task list \<Rightarrow> instant \<Rightarrow> string \<Rightarrow> instant \<Rightarrow> instant \<Rightarrow> analytics" where
  "fallback_analytics tbl clock uid now nextWeekISO =
     (let totalTasks = select_count (eq_user_id uid (from_tasks tbl));
          completedTasks = select_count (eq_status Done (eq_user_id uid (from_tasks tbl)));
          pendingTasks = select_count (eq_status Pending (eq_user_id uid (from_tasks tbl)));
          inProgressTasks = select_count (eq_status InProgress (eq_user_id uid (from_tasks tbl)));
          overdueTasks = select_count
            (lt_due_date now (neq_status Done (eq_user_id uid (from_tasks tbl))));
          rate = (if or_zero totalTasks > 0
                  then js_times (js_divide (js_number (or_zero completedTasks))
                                   (js_number (or_zero totalTasks))) 100
                  else 0);
          recent = recentTasks tbl uid
      in \<lparr>totalTasks = or_zero totalTasks,
          completedTasks = or_zero completedTasks,
          pendingTasks = or_zero pendingTasks,
          inProgressTasks = or_zero inProgressTasks,
          completionRate = rate,
          averageCompletionTime = 24,
          overdueTasks = or_zero overdueTasks,
          tasksByPriority =
            (case recent of None \<Rightarrow> [(''high'', Num 0), (''medium'', Num 0), (''low'', Num 0)]
             | Some ts \<Rightarrow> fold count_priority ts
                 [(''high'', Num 0), (''medium'', Num 0), (''low'', Num 0)]),
          tasksByTag = (case recent of None \<Rightarrow> [] | Some ts \<Rightarrow> fold count_tags ts []),
          productivityScore =
            Math_round (score (or_zero totalTasks) rate (or_zero overdueTasks) (or_zero inProgressTasks)),
          monthlyTrends = (case recent of None \<Rightarrow> [] | Some ts \<Rightarrow> monthlyTrends_of ts clock),
          upcomingDeadlines =
            map (\<lambda>t. \<lparr>taskId = task_id t, dl_title = title t, dueDate = extras_due_date t,
                      dl_priority = priority_or_medium t\<rparr>)
                (case upcomingTasks tbl uid now nextWeekISO of None \<Rightarrow> [] | Some ts \<Rightarrow> ts)\<rparr>)"

section \<open>The rate limiter\<close>

text \<open>
  \<open>rateLimitStore\<close> is a \<open>Map\<close> from user id to the list of admitted request times,
  kept in insertion order. \<open>Date.now()\<close> is the parameter \<open>now\<close>. The sweep runs over
  every entry once, replaces its list by the times after the cutoff and deletes the
  entry when none is left.
\<close>

type_synonym rateLimitStore = "(string \<times> instant list) list"

definition sweep :: "instant \<Rightarrow> rateLimitStore \<Rightarrow> rateLimitStore" where
  "sweep cutoff store =
     filter (\<lambda>(key, activeRequests). activeRequests \<noteq> [])
       (map (\<lambda>(key, requests). (key, filter (\<lambda>time. time > cutoff) requests)) store)"

definition rateLimitCheck :: "string \<Rightarrow> instant \<Rightarrow> rateLimitStore \<Rightarrow> bool \<times> rateLimitStore" where
  "rateLimitCheck userId now store =
     (let windowMs = 60000;
          maxRequests = 5;
          userRequests = (case map_of store userId of None \<Rightarrow> [] | Some rs \<Rightarrow> rs);
          recentRequests = filter (\<lambda>time. time > now - windowMs) userRequests
      in if length recentRequests \<ge> maxRequests then (False, store)
         else (let store' = AList.update userId (recentRequests @ [now]) store
               in (True, if length store' > 10000 then sweep (now - windowMs * 2) store'
                         else store')))"

text \<open>
  A run of the limiter from the empty store: the calls in order, each with its identity
  and its clock value; the result is the final store and the log of admitted calls.
\<close>

fun run_limiter :: "(string \<times> instant) list \<Rightarrow> rateLimitStore \<times> (string \<times> instant) list
    \<Rightarrow> rateLimitStore \<times> (string \<times> instant) list" where
  "run_limiter [] s = s"
| "run_limiter ((u, now) # calls) (store, admitted) =
     (case rateLimitCheck u now store of
        (True, store') \<Rightarrow> run_limiter calls (store', admitted @ [(u, now)])
      | (False, store') \<Rightarrow> run_limiter calls (store', admitted))"

definition admitted_within :: "(string \<times> instant) list \<Rightarrow> string \<Rightarrow> instant \<Rightarrow> instant list" where
  "admitted_within admitted u now =
     filter (\<lambda>time. time > now - 60000) (map snd (filter (\<lambda>c. fst c = u) admitted))"

definition stored :: "rateLimitStore \<Rightarrow> string \<Rightarrow> instant list" where
  "stored store u = (case map_of store u of None \<Rightarrow> [] | Some rs \<Rightarrow> rs)"

section \<open>The request handler\<close>

text \<open>
  What the handler reads from outside is a field of the request environment: the HTTP
  method, the two environment variables, the outcomes of \<open>createClient\<close>, of
  \<open>auth.getUser()\<close> and of \<open>rpc('get_task_analytics', \<dots>)\<close>, the clock and the
  \<open>tasks\<close> table. A call either returns or throws an \<open>Error\<close> with a message.
  \<open>Date.now()\<close> and the \<open>new Date()\<close> of one request read one clock value. The data
  of an RPC call without error is read as an array: the handler takes \<open>taskCounts[0]\<close>,
  or the zero report when there is none.
\<close>

datatype 'a js_result = Returns 'a | Throws string

record auth_response =
  user :: "string option"
  userError :: "string option"

datatype rpc_response = RpcError string | RpcData "analytics list"

record request =
  http_method :: string
  SUPABASE_URL :: "string option"
  SUPABASE_ANON_KEY :: "string option"
  createClient :: "unit js_result"
  getUser :: "auth_response js_result"
  rpc :: "rpc_response js_result"
  Date_now :: instant
  tasks_table :: "task list"

datatype body = Text string | Json_error string | Json_analytics analytics

record response =
  status_code :: nat
  headers :: "(string \<times> string) list"
  body :: body

text \<open>
  The handler returns a \<open>Response\<close> on every path but one: the fallback path ends in
  \<open>return analytics\<close>, the report object itself.
\<close>

datatype handler_result = Response response | Object analytics

definition corsHeaders :: "(string \<times> string) list" where
  "corsHeaders =
     [(''Access-Control-Allow-Origin'', ''*''),
      (''Access-Control-Allow-Headers'', ''authorization, x-client-info, apikey, content-type'')]"

definition json_response :: "nat \<Rightarrow> body \<Rightarrow> response" where
  "json_response st b =
     \<lparr>status_code = st, headers = corsHeaders @ [(''Content-Type'', ''application/json'')], body = b\<rparr>"

definition hex_digit :: "char \<Rightarrow> bool" where
  "hex_digit c = (c \<in> set ''0123456789abcdefABCDEF'')"

definition isValidUUID :: "string \<Rightarrow> bool" where
  "isValidUUID uuid =
     (length uuid = 36
      \<and> list_all hex_digit (take 8 uuid) \<and> uuid ! 8 = CHR ''-''
      \<and> list_all hex_digit (take 4 (drop 9 uuid)) \<and> uuid ! 13 = CHR ''-''
      \<and> uuid ! 14 = CHR ''4'' \<and> list_all hex_digit (take 3 (drop 15 uuid)) \<and> uuid ! 18 = CHR ''-''
      \<and> uuid ! 19 \<in> set ''89abAB'' \<and> list_all hex_digit (take 3 (drop 20 uuid))
      \<and> uuid ! 23 = CHR ''-''
      \<and> list_all hex_digit (drop 24 uuid))"

definition falsy :: "string option \<Rightarrow> bool" where
  "falsy v = (case v of None \<Rightarrow> True | Some s \<Rightarrow> s = [])"

definition default_analytics :: analytics where
  "default_analytics =
     \<lparr>totalTasks = 0, completedTasks = 0, pendingTasks = 0, inProgressTasks = 0,
      completionRate = 0, averageCompletionTime = 0, overdueTasks = 0,
      tasksByPriority = [(''high'', Num 0), (''medium'', Num 0), (''low'', Num 0)],
      tasksByTag = [], productivityScore = 0, monthlyTrends = [], upcomingDeadlines = []\<rparr>"

text \<open>
  The body of the \<open>try\<close> block: \<open>Inl msg\<close> is an exception with that message leaving
  the block, \<open>Inr r\<close> a \<open>return r\<close>.
\<close>

definition try_block :: "request \<Rightarrow> rateLimitStore \<Rightarrow> (string + handler_result) \<times> rateLimitStore" where
  "try_block req store =
     (if falsy (SUPABASE_URL req) \<or> falsy (SUPABASE_ANON_KEY req)
      then (Inl ''Missing required environment variables'', store)
      else case createClient req of
        Throws msg \<Rightarrow> (Inl msg, store)
      | Returns _ \<Rightarrow>
         (case getUser req of
            Throws msg \<Rightarrow> (Inl msg, store)
          | Returns auth \<Rightarrow>
             (case user auth of
                None \<Rightarrow> (Inr (Response (json_response 401 (Json_error ''Unauthorized''))), store)
              | Some uid \<Rightarrow>
                 if userError auth \<noteq> None
                 then (Inr (Response (json_response 401 (Json_error ''Unauthorized''))), store)
                 else if \<not> isValidUUID uid
                 then (Inr (Response (json_response 400 (Json_error ''Invalid user ID''))), store)
                 else (case rateLimitCheck uid (Date_now req) store of
                    (False, store') \<Rightarrow>
                      (Inr (Response (json_response 429 (Json_error ''Rate limit exceeded''))), store')
                  | (True, store') \<Rightarrow>
                      (let now = Date_now req;
                           nextWeekISO = setDate now (getDate now + 7)
                       in case rpc req of
                            Throws msg \<Rightarrow> (Inl msg, store')
                          | Returns (RpcError countsError) \<Rightarrow>
                              (Inr (Object (fallback_analytics (tasks_table req) now uid now nextWeekISO)),
                               store')
                          | Returns (RpcData taskCounts) \<Rightarrow>
                              (Inr (Response (json_response 200 (Json_analytics
                                 (case taskCounts of [] \<Rightarrow> default_analytics | a # _ \<Rightarrow> a)))),
                               store'))))))"

definition handler :: "request \<Rightarrow> rateLimitStore \<Rightarrow> handler_result \<times> rateLimitStore" where
  "handler req store =
     (if http_method req = ''OPTIONS''
      then (Response \<lparr>status_code = 200, headers = corsHeaders, body = Text ''ok''\<rparr>, store)
      else if http_method req \<noteq> ''GET''
      then (Response (json_response 405 (Json_error ''Method not allowed'')), store)
      else case try_block req store of
             (Inl message, store') \<Rightarrow> (Response (json_response 500 (Json_error message)), store')
           | (Inr r, store') \<Rightarrow> (r, store'))"

section \<open>The specification's notions\<close>

text \<open>
  The specification's productivity score before rounding, for \<open>total > 0\<close>: completion
  rate times 0.4, overdue penalty times 0.3, volume times 0.2, activity times 0.1, in
  exact arithmetic.
\<close>

definition spec_score :: "rat \<Rightarrow> nat \<Rightarrow> nat \<Rightarrow> nat \<Rightarrow> rat" where
  "spec_score rate n_total n_overdue n_in_progress =
     rate * (4 / 10)
     + max 0 (100 - of_nat n_overdue / of_nat n_total * 100) * (3 / 10)
     + min 100 (of_nat n_total * 10) * (2 / 10)
     + min 100 (of_nat n_in_progress * 25) * (1 / 10)"

text \<open>
  The specification's overdue task: not done, with a due date before \<open>now\<close>.
\<close>

definition spec_overdue :: "instant \<Rightarrow> task \<Rightarrow> bool" where
  "spec_overdue now t =
     (status t \<noteq> Done \<and> (case extras_due_date t of None \<Rightarrow> False | Some d \<Rightarrow> d < now))"

text \<open>
  The effective priority in the specification's words: \<open>metadata.priority\<close> when present
  and one of the three valid values, otherwise \<open>medium\<close>. A task has a valid priority
  when it has none or one of the three.
\<close>

definition valid_priority :: "task \<Rightarrow> bool" where
  "valid_priority t =
     (case extras_priority t of None \<Rightarrow> True | Some p \<Rightarrow> p \<in> set [''low'', ''medium'', ''high''])"

definition effective_priority :: "task \<Rightarrow> string" where
  "effective_priority t =
     (case extras_priority t of None \<Rightarrow> ''medium''
      | Some p \<Rightarrow> if p \<in> set [''low'', ''medium'', ''high''] then p else ''medium'')"

definition priority_count :: "task list \<Rightarrow> string \<Rightarrow> nat" where
  "priority_count ts p = length (filter (\<lambda>t. effective_priority t = p) ts)"

text \<open>The sum of the values of a counter object, with JavaScript's \<open>+\<close> on numbers.\<close>

fun plus_count :: "count \<Rightarrow> count \<Rightarrow> count" where
  "plus_count (Num a) (Num b) = Num (a + b)"
| "plus_count _ _ = NaN"

definition values_sum :: "(string \<times> count) list \<Rightarrow> count" where
  "values_sum obj = fold (\<lambda>kv acc. plus_count acc (snd kv)) obj (Num 0)"

text \<open>
  The specification's global counter of a tag: the number of its occurrences in the
  \<open>tags\<close> lists of the given tasks, as exact strings.
\<close>

definition occurrences :: "task list \<Rightarrow> string \<Rightarrow> nat" where
  "occurrences ts tag =
     sum_list (map (\<lambda>t. count_list (case extras_tags t of None \<Rightarrow> [] | Some l \<Rightarrow> l) tag) ts)"

text \<open>The number held by a member of a counter object, 0 when there is none.\<close>

fun number_of :: "count option \<Rightarrow> nat" where
  "number_of (Some (Num n)) = n"
| "number_of _ = 0"

text \<open>The advisory retry-after duration of a response, when it carries one.\<close>

definition retry_after :: "response \<Rightarrow> string option" where
  "retry_after r = map_of (headers r) ''Retry-After''"

text \<open>The invariant of the rate limiter's store along a run with a clock that does not go back.\<close>

definition limiter_inv :: "rateLimitStore \<Rightarrow> (string \<times> instant) list \<Rightarrow> instant \<Rightarrow> bool" where
  "limiter_inv store admitted T =
     (distinct (map fst store)
      \<and> (\<forall>u c. T - 60000 \<le> c \<longrightarrow>
            filter (\<lambda>time. time > c) (stored store u)
              = filter (\<lambda>time. time > c) (map snd (filter (\<lambda>x. fst x = u) admitted)))
      \<and> (\<forall>u. \<forall>time \<in> set (stored store u). time \<le> T))"

section \<open>Example inputs\<close>

text \<open>
  The specification's scenario: ten tasks of one owner, four done, two overdue (pending,
  due before \<open>now = 1000\<close>), two in progress, two pending, none with a priority.
\<close>

definition scenario_task :: "status \<Rightarrow> instant option \<Rightarrow> task" where
  "scenario_task s d =
     \<lparr>task_id = ''t'', user_id = ''u'', title = ''x'', status = s,
      extras = Some \<lparr>priority = None, due_date = d, tags = None\<rparr>, inserted_at = 0\<rparr>"

definition scenario_tasks :: "task list" where
  "scenario_tasks =
     [scenario_task Done None, scenario_task Done None, scenario_task Done None,
      scenario_task Done None, scenario_task Pending (Some 500), scenario_task Pending (Some 500),
      scenario_task InProgress None, scenario_task InProgress None,
      scenario_task Pending None, scenario_task Pending None]"

text \<open>A task of owner \<open>u\<close> with the given status, priority, due date, tags and creation time.\<close>

definition example_task ::
  "status \<Rightarrow> string option \<Rightarrow> instant option \<Rightarrow> string list option \<Rightarrow> instant \<Rightarrow> task" where
  "example_task s p d tg ins =
     \<lparr>task_id = ''t'', user_id = ''u'', title = ''x'', status = s,
      extras = Some \<lparr>priority = p, due_date = d, tags = tg\<rparr>, inserted_at = ins\<rparr>"

text \<open>Four tasks with priorities none, high, low, high; and one task with priority \<open>urgent\<close>.\<close>

definition priority_tasks :: "task list" where
  "priority_tasks =
     [example_task Pending None None None 0, example_task Done (Some ''high'') None None 1,
      example_task Pending (Some ''low'') None None 2, example_task InProgress (Some ''high'') None None 3]"

definition urgent_tasks :: "task list" where
  "urgent_tasks = [example_task Pending (Some ''urgent'') None None 0]"

text \<open>Two tagged tasks: \<open>a\<close> twice in one list, \<open>b\<close> in both, \<open>B\<close> once.\<close>

definition tagged_tasks :: "task list" where
  "tagged_tasks =
     [example_task Pending None None (Some [''a'', ''b'', ''a'']) 0,
      example_task Done None None (Some [''b'', ''B'']) 1]"

text \<open>One task with the single tag \<open>constructor\<close>.\<close>

definition constructor_tasks :: "task list" where
  "constructor_tasks = [example_task Pending None None (Some [''constructor'']) 0]"

text \<open>
  One task with 21 tags, the letters \<open>a\<close> to \<open>u\<close>, and two orders of tied groups:
  one ranks all tags alike, the other puts \<open>u\<close> first.
\<close>

definition letter_tasks :: "task list" where
  "letter_tasks =
     [example_task Pending None None
        (Some (map (\<lambda>c. [c]) ''abcdefghijklmnopqrstu'')) 0]"

definition first_come :: "string \<Rightarrow> nat" where
  "first_come tag = 0"

definition u_first :: "string \<Rightarrow> nat" where
  "u_first tag = (if tag = ''u'' then 0 else 1)"

text \<open>One pending task of owner \<open>u\<close> due exactly seven days after 2024-03-01T00:00Z.\<close>

definition boundary_tasks :: "task list" where
  "boundary_tasks = [example_task Pending None (Some (utc 2024 3 8)) None 0]"

text \<open>Five calls of one identity within five milliseconds.\<close>

definition limiter_calls :: "(string \<times> instant) list" where
  "limiter_calls = [(''a'', 0), (''a'', 1), (''a'', 2), (''a'', 3), (''a'', 4)]"

text \<open>
  Requests: an authenticated \<open>GET\<close> of a well-formed user id at 2024-03-15T00:00Z on an
  empty table, whose RPC call returns an error; the same with the environment variables
  missing; the same with \<open>createClient\<close> throwing; and a store in which the user has five
  admitted requests in the last five milliseconds.
\<close>

definition uid_example :: string where
  "uid_example = ''123e4567-e89b-42d3-a456-426614174000''"

definition request_rpc_error :: request where
  "request_rpc_error =
     \<lparr>http_method = ''GET'', SUPABASE_URL = Some ''https://x.supabase.co'',
      SUPABASE_ANON_KEY = Some ''key'', createClient = Returns (),
      getUser = Returns \<lparr>user = Some uid_example, userError = None\<rparr>,
      rpc = Returns (RpcError ''column extras does not exist''),
      Date_now = utc 2024 3 15, tasks_table = []\<rparr>"

definition request_missing_env :: request where
  "request_missing_env = request_rpc_error\<lparr>SUPABASE_URL := None\<rparr>"

definition request_bad_url :: request where
  "request_bad_url = request_rpc_error\<lparr>createClient := Throws ''Invalid URL''\<rparr>"

definition limited_store :: rateLimitStore where
  "limited_store =
     [(uid_example, [utc 2024 3 15 - 5, utc 2024 3 15 - 4, utc 2024 3 15 - 3,
                     utc 2024 3 15 - 2, utc 2024 3 15 - 1])]"

section \<open>Scalar counts and score\<close>

lemma select_count_where:
  "select_count (where_rows c (Inr rows)) = Some (length (filter c rows))"
  by (simp add: select_count_def where_rows_def)

lemma owner_query: "eq_user_id uid (from_tasks tbl) = Inr (owner_rows tbl uid)"
  by (simp add: eq_user_id_def from_tasks_def where_rows_def owner_rows_def)

lemma recentTasks_eq:
  "recentTasks tbl uid = Some (take 1000 (sort_key (\<lambda>t. - inserted_at t) (owner_rows tbl uid)))"
  by (simp add: recentTasks_def owner_query order_inserted_at_desc_def limit_def select_data_def)

lemma status_count:
  "or_zero (select_count (eq_status s (eq_user_id uid (from_tasks tbl))))
     = length (filter (\<lambda>t. status t = s) (owner_rows tbl uid))"
  by (simp add: owner_query eq_status_def select_count_where or_zero_def)

lemma total_count:
  "or_zero (select_count (eq_user_id uid (from_tasks tbl))) = length (owner_rows tbl uid)"
  by (simp add: owner_query select_count_def or_zero_def)

text \<open>
  The count request for the overdue tasks is rejected by the database, so the handler
  reads 0, whatever the table is.
\<close>

lemma overdue_count:
  "select_count (lt_due_date now (neq_status Done (eq_user_id uid (from_tasks tbl)))) = None"
  by (simp add: owner_query neq_status_def where_rows_def lt_due_date_def select_count_def)

lemma or_zero_null: "or_zero None = 0"
  by (simp add: or_zero_def)

lemma fallback_counts:
  "totalTasks (fallback_analytics tbl clock uid now nw) = length (owner_rows tbl uid)"
  "completedTasks (fallback_analytics tbl clock uid now nw)
     = length (filter (\<lambda>t. status t = Done) (owner_rows tbl uid))"
  "pendingTasks (fallback_analytics tbl clock uid now nw)
     = length (filter (\<lambda>t. status t = Pending) (owner_rows tbl uid))"
  "inProgressTasks (fallback_analytics tbl clock uid now nw)
     = length (filter (\<lambda>t. status t = InProgress) (owner_rows tbl uid))"
  "overdueTasks (fallback_analytics tbl clock uid now nw) = 0"
  by (simp_all add: fallback_analytics_def Let_def status_count total_count overdue_count
      or_zero_null)

lemma fallback_rate:
  "completionRate (fallback_analytics tbl clock uid now nw)
     = (if 0 < length (owner_rows tbl uid)
        then js_times (js_divide (js_number (length (filter (\<lambda>t. status t = Done) (owner_rows tbl uid))))
                         (js_number (length (owner_rows tbl uid)))) 100
        else 0)"
  by (simp add: fallback_analytics_def Let_def status_count total_count)

lemma fallback_score:
  "productivityScore (fallback_analytics tbl clock uid now nw)
     = Math_round (score (length (owner_rows tbl uid))
         (completionRate (fallback_analytics tbl clock uid now nw)) 0
         (length (filter (\<lambda>t. status t = InProgress) (owner_rows tbl uid))))"
  by (simp add: fallback_analytics_def Let_def status_count total_count overdue_count
      or_zero_null)

lemma scalar_fields:
  "total_tasks (scalar_statements tasks uid now) = length (owner_rows tasks uid)"
  "completed_tasks (scalar_statements tasks uid now)
     = length (filter (\<lambda>t. status t = Done) (owner_rows tasks uid))"
  "pending_tasks (scalar_statements tasks uid now)
     = length (filter (\<lambda>t. status t = Pending) (owner_rows tasks uid))"
  "in_progress_tasks (scalar_statements tasks uid now)
     = length (filter (\<lambda>t. status t = InProgress) (owner_rows tasks uid))"
  "overdue_tasks (scalar_statements tasks uid now)
     = length (filter (is_overdue now) (owner_rows tasks uid))"
  "completion_rate (scalar_statements tasks uid now)
     = rate_stmt (length (owner_rows tasks uid))
         (length (filter (\<lambda>t. status t = Done) (owner_rows tasks uid)))"
  "productivity_score (scalar_statements tasks uid now)
     = score_stmt (length (owner_rows tasks uid))
         (length (filter (\<lambda>t. status t = Done) (owner_rows tasks uid)))
         (length (filter (is_overdue now) (owner_rows tasks uid)))
         (length (filter (\<lambda>t. status t = InProgress) (owner_rows tasks uid)))"
  by (simp_all add: scalar_statements_def Let_def count_filter_def)

text \<open>
  The four status counts that the SQL function assigns to its variables equal the
  fallback's, for every table, owner and instant. The overdue count does not: the
  function counts the overdue tasks and the fallback reads 0.
\<close>

lemma status_counts_agree:
  "total_tasks (scalar_statements tasks uid now)
     = totalTasks (fallback_analytics tasks clock uid now next_week)
   \<and> completed_tasks (scalar_statements tasks uid now)
     = completedTasks (fallback_analytics tasks clock uid now next_week)
   \<and> pending_tasks (scalar_statements tasks uid now)
     = pendingTasks (fallback_analytics tasks clock uid now next_week)
   \<and> in_progress_tasks (scalar_statements tasks uid now)
     = inProgressTasks (fallback_analytics tasks clock uid now next_week)"
  by (simp add: scalar_fields fallback_counts)

lemma is_overdue_spec: "is_overdue now t = spec_overdue now t"
  by (simp add: is_overdue_def spec_overdue_def)

lemma get_task_analytics_raises:
  "get_task_analytics tasks db_clock tie_order uid now next_week = Inl (undefined_column ''extras'')"
  by (simp add: get_task_analytics_def priority_counts_def Let_def)

lemma scenario_rows: "owner_rows scenario_tasks ''u'' = scenario_tasks"
  by (simp add: owner_rows_def scenario_tasks_def scenario_task_def)

lemma scenario_counts:
  "length scenario_tasks = 10"
  "length (filter (\<lambda>t. status t = Done) scenario_tasks) = 4"
  "length (filter (\<lambda>t. status t = Pending) scenario_tasks) = 4"
  "length (filter (\<lambda>t. status t = InProgress) scenario_tasks) = 2"
  "length (filter (spec_overdue 1000) scenario_tasks) = 2"
  by (simp_all add: scenario_tasks_def scenario_task_def spec_overdue_def extras_due_date_def)

lemma scenario_rate: "js_times (js_divide (js_number 4) (js_number 10)) 100 = 40"
  by code_simp

lemma scenario_score: "Math_round (score 10 40 0 2) = 71"
  by code_simp

lemma scenario_fallback:
  "totalTasks (fallback_analytics scenario_tasks clock ''u'' 1000 nw) = 10"
  "completedTasks (fallback_analytics scenario_tasks clock ''u'' 1000 nw) = 4"
  "pendingTasks (fallback_analytics scenario_tasks clock ''u'' 1000 nw) = 4"
  "inProgressTasks (fallback_analytics scenario_tasks clock ''u'' 1000 nw) = 2"
  "overdueTasks (fallback_analytics scenario_tasks clock ''u'' 1000 nw) = 0"
  "completionRate (fallback_analytics scenario_tasks clock ''u'' 1000 nw) = 40"
  "productivityScore (fallback_analytics scenario_tasks clock ''u'' 1000 nw) = 71"
proof -
  show "totalTasks (fallback_analytics scenario_tasks clock ''u'' 1000 nw) = 10"
    "completedTasks (fallback_analytics scenario_tasks clock ''u'' 1000 nw) = 4"
    "pendingTasks (fallback_analytics scenario_tasks clock ''u'' 1000 nw) = 4"
    "inProgressTasks (fallback_analytics scenario_tasks clock ''u'' 1000 nw) = 2"
    "overdueTasks (fallback_analytics scenario_tasks clock ''u'' 1000 nw) = 0"
    by (simp_all add: fallback_counts scenario_rows scenario_counts)
  show rate: "completionRate (fallback_analytics scenario_tasks clock ''u'' 1000 nw) = 40"
    unfolding fallback_rate scenario_rows scenario_counts using scenario_rate by simp
  show "productivityScore (fallback_analytics scenario_tasks clock ''u'' 1000 nw) = 71"
    unfolding fallback_score rate scenario_rows scenario_counts by (rule scenario_score)
qed

lemma spec_score_scenario: "round (spec_score 40 10 2 2) = 65"
  by (simp add: spec_score_def)

text \<open>
  The scalar variables of the SQL function on the scenario, before the statement that
  raises: two overdue tasks, rate 40, score 65.
\<close>

lemma scenario_rate_stmt: "rate_stmt 10 4 = 40"
  by code_simp

lemma scenario_score_stmt: "score_stmt 10 4 2 2 = 65"
  by code_simp

lemma scenario_bulk:
  "overdue_tasks (scalar_statements scenario_tasks ''u'' 1000) = 2"
  "completion_rate (scalar_statements scenario_tasks ''u'' 1000) = 40"
  "productivity_score (scalar_statements scenario_tasks ''u'' 1000) = 65"
  unfolding scalar_fields scenario_rows is_overdue_spec scenario_counts
  by (simp_all add: scenario_rate_stmt scenario_score_stmt)

text \<open>
  Rounding. With 6 tasks, none done, 5 overdue and 1 in progress, the exact weighted sum
  is 19.5 and rounds to 20; the doubles of the fallback's \<open>score\<close> add up to
  19.499999999999996 and \<open>Math.round\<close> gives 19. With 7 tasks, 1 done, 6 overdue and
  1 in progress, the exact sum is 26.5 and rounds to 27; the two \<open>NUMERIC\<close> quotients
  of the SQL function have 20 decimals, the sum is 26.4999999999999999998 and \<open>ROUND\<close>
  gives 26.
\<close>

lemma score_rounding_example:
  "Math_round (score 6 (js_times (js_divide (js_number 0) (js_number 6)) 100) 5 1) = 19
   \<and> round (spec_score (0 / 6 * 100) 6 5 1) = 20"
proof (rule conjI)
  show "Math_round (score 6 (js_times (js_divide (js_number 0) (js_number 6)) 100) 5 1) = 19"
    by code_simp
  have s: "spec_score (0 / 6 * 100) 6 5 1 = 39 / 2" by (simp add: spec_score_def)
  show "round (spec_score (0 / 6 * 100) 6 5 1) = 20" unfolding s by (simp add: round_def)
qed

lemma score_stmt_rounding_example:
  "score_stmt 7 1 6 1 = 26 \<and> round (spec_score (1 / 7 * 100) 7 6 1) = 27"
proof (rule conjI)
  show "score_stmt 7 1 6 1 = 26" by code_simp
  have s: "spec_score (1 / 7 * 100) 7 6 1 = 53 / 2" by (simp add: spec_score_def)
  show "round (spec_score (1 / 7 * 100) 7 6 1) = 27" unfolding s by (simp add: round_def)
qed

text \<open>
  Claim C1 fails on the bulk strategy: \<open>get_task_analytics\<close> ends in an error for every
  table, owner and instant, because its fourth statement raises, so the bulk strategy
  produces no value of \<open>totalTasks\<close>, \<open>completedTasks\<close>, \<open>pendingTasks\<close>,
  \<open>inProgressTasks\<close>, \<open>overdueTasks\<close>, \<open>completionRate\<close> or \<open>productivityScore\<close> to
  compare with the fallback's, which on the scenario are 10, 4, 4, 2, 0, 40 and 71. Of
  the values that the function has assigned to its scalar variables before the error, the
  four status counts equal the fallback's (lemma \<open>status_counts_agree\<close>); the overdue
  count and the score do not (2 and 65 on the scenario, lemma \<open>scenario_bulk\<close>), because
  the fallback's request for the overdue count is rejected.
\<close>

theorem C1_bulk_strategy_raises:
  "get_task_analytics tasks db_clock tie_order uid now next_week = Inl (undefined_column ''extras'')
   \<and> totalTasks (fallback_analytics scenario_tasks clock ''u'' 1000 next_week') = 10
   \<and> completedTasks (fallback_analytics scenario_tasks clock ''u'' 1000 next_week') = 4
   \<and> pendingTasks (fallback_analytics scenario_tasks clock ''u'' 1000 next_week') = 4
   \<and> inProgressTasks (fallback_analytics scenario_tasks clock ''u'' 1000 next_week') = 2
   \<and> overdueTasks (fallback_analytics scenario_tasks clock ''u'' 1000 next_week') = 0
   \<and> completionRate (fallback_analytics scenario_tasks clock ''u'' 1000 next_week') = 40
   \<and> productivityScore (fallback_analytics scenario_tasks clock ''u'' 1000 next_week') = 71"
  by (simp add: get_task_analytics_raises scenario_fallback)

text \<open>
  Claim C2 fails on the specification's own scenario. Of the ten tasks of the owner, four
  are done, two are pending and overdue (due at 500, before \<open>now = 1000\<close>), two are in
  progress and two are pending: the completion rate is 40 and the specification's score is
  \<open>round (16 + 24 + 20 + 5) = 65\<close>. The fallback reports the rate 40, no overdue task
  and the score 71, \<open>round (16 + 30 + 20 + 5)\<close>: its request for the overdue count
  filters \<open>extras->due_date\<close> and is rejected by the database, and the handler reads the
  missing count as 0, on this table as on every other. The bulk strategy reports no
  score: \<open>get_task_analytics\<close> ends in an error on every call.
\<close>

theorem C2_scenario_score:
  "length (filter (\<lambda>t. status t = Done) (owner_rows scenario_tasks ''u'')) = 4
   \<and> length (filter (spec_overdue 1000) (owner_rows scenario_tasks ''u'')) = 2
   \<and> length (filter (\<lambda>t. status t = InProgress) (owner_rows scenario_tasks ''u'')) = 2
   \<and> round (spec_score 40 10 2 2) = 65
   \<and> totalTasks (fallback_analytics scenario_tasks clock ''u'' 1000 next_week) = 10
   \<and> overdueTasks (fallback_analytics scenario_tasks clock ''u'' 1000 next_week) = 0
   \<and> completionRate (fallback_analytics scenario_tasks clock ''u'' 1000 next_week) = 40
   \<and> productivityScore (fallback_analytics scenario_tasks clock ''u'' 1000 next_week) = 71
   \<and> overdueTasks (fallback_analytics tbl clock' uid' now' next_week') = 0
   \<and> get_task_analytics tasks db_clock tie_order uid now nw = Inl (undefined_column ''extras'')"
  by (simp add: get_task_analytics_raises scenario_fallback scenario_rows scenario_counts
      spec_score_scenario fallback_counts)

section \<open>Calendar values\<close>

lemma Day_utc: "Day (utc y m d) = days_from_civil y m d"
  by (simp add: Day_def utc_def msPerDay_def)

lemma TimeWithinDay_utc: "TimeWithinDay (utc y m d) = 0"
  by (simp add: TimeWithinDay_def utc_def msPerDay_def)

lemma Day_mult: "Day (n * msPerDay) = n"
  by (simp add: Day_def msPerDay_def)

lemma iso_month_days: "iso_month (n * msPerDay) = (fst (civil_from_days n), fst (snd (civil_from_days n)))"
  by (simp add: iso_month_def getFullYear_def getMonth_def Day_mult)

lemma dfc_example: "days_from_civil 2024 3 31 = 19813"
  by code_simp

lemma cfd_example: "civil_from_days 19813 = (2024, 3, 31)"
  by code_simp

lemma fields_example: "getFullYear (utc 2024 3 31) = 2024" "getMonth (utc 2024 3 31) = 2" "getDate (utc 2024 3 31) = 31"
  by (simp_all add: getFullYear_def getMonth_def getDate_def Day_utc dfc_example cfd_example)

lemma setMonth_example: "setMonth (utc 2024 3 31) mon = MakeDay 2024 mon 31 * msPerDay"
  by (simp add: setMonth_def fields_example TimeWithinDay_utc)

lemma months_back:
  "civil_from_days (MakeDay 2024 2 31) = (2024, 3, 31)"
  "civil_from_days (MakeDay 2024 1 31) = (2024, 3, 2)"
  "civil_from_days (MakeDay 2024 0 31) = (2024, 1, 31)"
  "civil_from_days (MakeDay 2024 (-1) 31) = (2023, 12, 31)"
  "civil_from_days (MakeDay 2024 (-2) 31) = (2023, 12, 1)"
  "civil_from_days (MakeDay 2024 (-3) 31) = (2023, 10, 31)"
  by code_simp+

lemma last6_example:
  "last6Months (utc 2024 3 31) = [(2023, 10), (2023, 12), (2023, 12), (2024, 1), (2024, 3), (2024, 3)]"
  by (simp add: last6Months_def upt_rec setMonth_example iso_month_days fields_example months_back)

section \<open>Priority distribution\<close>

lemma valid_cases:
  "valid_priority t \<Longrightarrow>
   extras_priority t = None \<or> extras_priority t = Some ''low''
   \<or> extras_priority t = Some ''medium'' \<or> extras_priority t = Some ''high''"
  by (auto simp: valid_priority_def split: option.splits)

lemma valid_effective:
  assumes "valid_priority t"
  shows "priority_or_medium t = effective_priority t"
    "effective_priority t \<in> {''low'', ''medium'', ''high''}"
  using valid_cases[OF assms]
  by (auto simp: priority_or_medium_def effective_priority_def)

lemma count_priority_valid:
  assumes "valid_priority t"
  shows "count_priority t [(''high'', Num h), (''medium'', Num m), (''low'', Num l)]
     = [(''high'', Num (h + priority_count [t] ''high'')),
        (''medium'', Num (m + priority_count [t] ''medium'')),
        (''low'', Num (l + priority_count [t] ''low''))]"
  using valid_cases[OF assms]
  by (auto simp: count_priority_def priority_or_medium_def priority_count_def effective_priority_def)

lemma priority_count_Cons:
  "priority_count (t # ts) p = priority_count [t] p + priority_count ts p"
  by (simp add: priority_count_def)

lemma fold_count_priority:
  "\<forall>t \<in> set ts. valid_priority t \<Longrightarrow>
   fold count_priority ts [(''high'', Num h), (''medium'', Num m), (''low'', Num l)]
     = [(''high'', Num (h + priority_count ts ''high'')),
        (''medium'', Num (m + priority_count ts ''medium'')),
        (''low'', Num (l + priority_count ts ''low''))]"
proof (induction ts arbitrary: h m l)
  case Nil
  then show ?case by (simp add: priority_count_def)
next
  case (Cons t ts)
  have v: "valid_priority t" and vs: "\<forall>t \<in> set ts. valid_priority t" using Cons.prems by simp_all
  show ?case
    unfolding fold_simps o_apply count_priority_valid[OF v] Cons.IH[OF vs] priority_count_Cons[of t ts]
    by (simp add: add.assoc)
qed

lemma priority_count_total:
  "\<forall>t \<in> set ts. valid_priority t \<Longrightarrow>
   priority_count ts ''high'' + priority_count ts ''medium'' + priority_count ts ''low'' = length ts"
proof (induction ts)
  case Nil
  then show ?case by (simp add: priority_count_def)
next
  case (Cons t ts)
  have "priority_count [t] ''high'' + priority_count [t] ''medium'' + priority_count [t] ''low'' = 1"
    using valid_cases[of t] Cons.prems by (auto simp: priority_count_def effective_priority_def)
  then show ?case using Cons unfolding priority_count_Cons[of t ts] by simp
qed

lemma priority_count_sort_key: "priority_count (sort_key f ts) p = priority_count ts p"
  by (simp add: priority_count_def filter_sort)

lemma fallback_tasksByPriority:
  "tasksByPriority (fallback_analytics tasks clock uid now nw)
     = fold count_priority (take 1000 (sort_key (\<lambda>t. - inserted_at t) (owner_rows tasks uid)))
         [(''high'', Num 0), (''medium'', Num 0), (''low'', Num 0)]"
  by (simp add: fallback_analytics_def Let_def recentTasks_eq)

lemma values_sum3: "values_sum [(a, Num x), (b, Num y), (c, Num z)] = Num (x + y + z)"
  by (simp add: values_sum_def)

lemma fallback_totalTasks:
  "totalTasks (fallback_analytics tasks clock uid now nw) = length (owner_rows tasks uid)"
  by (rule fallback_counts(1))

lemma fallback_priority_props:
  assumes v: "\<forall>t \<in> set rows. valid_priority t"
  defines "sample \<equiv> take 1000 (sort_key (\<lambda>t. - inserted_at t) rows)"
  defines "f \<equiv> fold count_priority sample [(''high'', Num 0), (''medium'', Num 0), (''low'', Num 0)]"
  shows "f = [(''high'', Num (priority_count sample ''high'')),
              (''medium'', Num (priority_count sample ''medium'')),
              (''low'', Num (priority_count sample ''low''))]"
    and "values_sum f = Num (length sample)"
    and "length rows \<le> 1000 \<longrightarrow>
           length sample = length rows \<and> (\<forall>p. priority_count sample p = priority_count rows p)"
proof -
  have "set sample \<subseteq> set rows"
    unfolding sample_def using set_take_subset[of 1000 "sort_key (\<lambda>t. - inserted_at t) rows"] by simp
  then have vs: "\<forall>t \<in> set sample. valid_priority t" using v by blast
  show f: "f = [(''high'', Num (priority_count sample ''high'')),
              (''medium'', Num (priority_count sample ''medium'')),
              (''low'', Num (priority_count sample ''low''))]"
    unfolding f_def fold_count_priority[OF vs] by simp
  show "values_sum f = Num (length sample)"
    unfolding f values_sum3 using priority_count_total[OF vs] by simp
  show "length rows \<le> 1000 \<longrightarrow>
           length sample = length rows \<and> (\<forall>p. priority_count sample p = priority_count rows p)"
    by (simp add: sample_def priority_count_sort_key)
qed

text \<open>
  Claim C5, amended. For every task set in which every priority of the owner's tasks is
  absent or one of \<open>low\<close>, \<open>medium\<close>, \<open>high\<close>, the fallback's \<open>tasksByPriority\<close>
  has exactly the three keys \<open>high\<close>, \<open>medium\<close>, \<open>low\<close>, each of the owner's at most
  1000 most recently created tasks being counted under its priority when it has one and
  under \<open>medium\<close> otherwise; the values sum to the number of these tasks, which is
  \<open>totalTasks\<close> when the owner has at most 1000 tasks, and then the counts are those of
  all the owner's tasks.
\<close>

theorem C5_priority_distribution:
  assumes "\<forall>t \<in> set (owner_rows tasks uid). valid_priority t"
  shows "(let rows = owner_rows tasks uid;
              sample = take 1000 (sort_key (\<lambda>t. - inserted_at t) rows);
              f = tasksByPriority (fallback_analytics tasks clock uid now next_week)
          in f = [(''high'', Num (priority_count sample ''high'')),
                  (''medium'', Num (priority_count sample ''medium'')),
                  (''low'', Num (priority_count sample ''low''))]
           \<and> values_sum f = Num (length sample)
           \<and> (length rows \<le> 1000 \<longrightarrow>
                 values_sum f = Num (totalTasks (fallback_analytics tasks clock uid now next_week))
               \<and> (\<forall>p. priority_count sample p = priority_count rows p)))"
proof -
  let ?rows = "owner_rows tasks uid"
  let ?sample = "take 1000 (sort_key (\<lambda>t. - inserted_at t) ?rows)"
  let ?f = "fold count_priority ?sample [(''high'', Num 0), (''medium'', Num 0), (''low'', Num 0)]"
  have 1: "?f = [(''high'', Num (priority_count ?sample ''high'')),
                 (''medium'', Num (priority_count ?sample ''medium'')),
                 (''low'', Num (priority_count ?sample ''low''))]"
    by (rule fallback_priority_props(1)[OF assms])
  have 2: "values_sum ?f = Num (length ?sample)"
    by (rule fallback_priority_props(2)[OF assms])
  have 3: "length ?rows \<le> 1000 \<longrightarrow>
      length ?sample = length ?rows \<and> (\<forall>p. priority_count ?sample p = priority_count ?rows p)"
    by (rule fallback_priority_props(3)[OF assms])
  have 4: "length ?rows \<le> 1000 \<longrightarrow>
      values_sum ?f = Num (length ?rows) \<and> (\<forall>p. priority_count ?sample p = priority_count ?rows p)"
    using 2 3 by metis
  show ?thesis
    unfolding Let_def fallback_tasksByPriority fallback_totalTasks
    using 1 2 4 by blast
qed

lemma priority_rows: "owner_rows priority_tasks ''u'' = priority_tasks"
  by (simp add: owner_rows_def priority_tasks_def example_task_def)

lemma priority_tasks_valid: "\<forall>t \<in> set priority_tasks. valid_priority t"
  by (simp add: priority_tasks_def valid_priority_def example_task_def extras_priority_def)

lemma priority_tasks_counts:
  "priority_count priority_tasks ''high'' = 2" "priority_count priority_tasks ''medium'' = 1"
  "priority_count priority_tasks ''low'' = 1"
  by (simp_all add: priority_count_def priority_tasks_def effective_priority_def example_task_def
      extras_priority_def)

theorem C5_priority_distribution_witness:
  "list_all valid_priority (owner_rows priority_tasks ''u'')
   \<and> tasksByPriority (fallback_analytics priority_tasks 0 ''u'' 0 0)
       = [(''high'', Num 2), (''medium'', Num 1), (''low'', Num 1)]
   \<and> values_sum (tasksByPriority (fallback_analytics priority_tasks 0 ''u'' 0 0))
       = Num (totalTasks (fallback_analytics priority_tasks 0 ''u'' 0 0))"
proof -
  have v: "\<forall>t \<in> set (owner_rows priority_tasks ''u''). valid_priority t"
    unfolding priority_rows by (rule priority_tasks_valid)
  have len: "length priority_tasks \<le> 1000" by (simp add: priority_tasks_def)
  note inst = C5_priority_distribution[OF v, of 0 0 0, unfolded Let_def priority_rows]
  have same: "priority_count (take 1000 (sort_key (\<lambda>t. - inserted_at t) priority_tasks)) p
      = priority_count priority_tasks p" for p
    using inst len by blast
  have f: "tasksByPriority (fallback_analytics priority_tasks 0 ''u'' 0 0)
       = [(''high'', Num 2), (''medium'', Num 1), (''low'', Num 1)]"
    using inst unfolding same priority_tasks_counts by blast
  have s: "values_sum (tasksByPriority (fallback_analytics priority_tasks 0 ''u'' 0 0))
       = Num (totalTasks (fallback_analytics priority_tasks 0 ''u'' 0 0))"
    using inst len by blast
  have "list_all valid_priority (owner_rows priority_tasks ''u'')"
    using v by (simp add: list_all_iff)
  then show ?thesis using f s by blast
qed

text \<open>
  Claim C5 as stated fails for a priority outside the three values: the one task of
  \<open>urgent_tasks\<close> would count under \<open>medium\<close>, but the fallback adds a fourth key
  \<open>urgent\<close> with value \<open>NaN\<close> and leaves \<open>medium\<close> at 0.
\<close>

theorem C5_invalid_priority_counterexample:
  "priority_count (owner_rows urgent_tasks ''u'') ''medium'' = 1
   \<and> tasksByPriority (fallback_analytics urgent_tasks 0 ''u'' 0 0)
       = [(''high'', Num 0), (''medium'', Num 0), (''low'', Num 0), (''urgent'', NaN)]"
proof -
  have rows: "owner_rows urgent_tasks ''u'' = urgent_tasks"
    by (simp add: owner_rows_def urgent_tasks_def example_task_def)
  have 1: "priority_count urgent_tasks ''medium'' = 1"
    by (simp add: priority_count_def urgent_tasks_def effective_priority_def example_task_def
        extras_priority_def)
  have 3: "fold count_priority (take 1000 (sort_key (\<lambda>t. - inserted_at t) urgent_tasks))
             [(''high'', Num 0), (''medium'', Num 0), (''low'', Num 0)]
       = [(''high'', Num 0), (''medium'', Num 0), (''low'', Num 0), (''urgent'', NaN)]"
    by (simp add: urgent_tasks_def count_priority_def priority_or_medium_def example_task_def
        extras_priority_def)
  show ?thesis
    unfolding fallback_tasksByPriority rows using 1 3 by simp
qed

section \<open>Tag distribution\<close>

lemma count_tag_elements: "count_list (tag_elements rows) tag = occurrences rows tag"
  by (induction rows) (simp_all add: tag_elements_def occurrences_def)

lemma occurrences_pos_iff: "0 < occurrences rows tag \<longleftrightarrow> tag \<in> set (tag_elements rows)"
  using count_list_0_iff[of "tag_elements rows" tag] by (auto simp: count_tag_elements)

lemma proto_in_prototype: "''__proto__'' \<in> set Object_prototype"
  by (simp add: Object_prototype_def)

lemma map_of_count_tag_other: "x \<noteq> tag \<Longrightarrow> map_of (count_tag x obj) tag = map_of obj tag"
  by (simp add: count_tag_def update_conv' split: option.splits)

lemma map_of_count_tag_same:
  assumes "tag \<notin> set Object_prototype"
    and "map_of obj tag = None \<or> (\<exists>n. map_of obj tag = Some (Num n))"
  shows "map_of (count_tag tag obj) tag = Some (Num (number_of (map_of obj tag) + 1))"
proof -
  have "tag \<noteq> ''__proto__''" using assms(1) proto_in_prototype by blast
  then show ?thesis using assms by (auto simp: count_tag_def update_conv')
qed

lemma map_of_fold_count_tag:
  assumes "tag \<notin> set Object_prototype"
    and "map_of obj tag = None \<or> (\<exists>n. map_of obj tag = Some (Num n))"
  shows "map_of (fold count_tag l obj) tag
     = (if count_list l tag = 0 then map_of obj tag
        else Some (Num (number_of (map_of obj tag) + count_list l tag)))"
  using assms(2)
proof (induction l arbitrary: obj)
  case Nil
  then show ?case by simp
next
  case (Cons x l)
  show ?case
  proof (cases "x = tag")
    case True
    have step: "map_of (count_tag tag obj) tag = Some (Num (number_of (map_of obj tag) + 1))"
      using assms(1) Cons.prems by (rule map_of_count_tag_same)
    then have pre: "map_of (count_tag tag obj) tag = None
        \<or> (\<exists>n. map_of (count_tag tag obj) tag = Some (Num n))" by simp
    have "map_of (fold count_tag (x # l) obj) tag = map_of (fold count_tag l (count_tag tag obj)) tag"
      using True by simp
    also have "\<dots> = (if count_list l tag = 0 then map_of (count_tag tag obj) tag
        else Some (Num (number_of (map_of (count_tag tag obj) tag) + count_list l tag)))"
      by (rule Cons.IH[OF pre])
    also have "\<dots> = (if count_list (x # l) tag = 0 then map_of obj tag
        else Some (Num (number_of (map_of obj tag) + count_list (x # l) tag)))"
      using True by (simp add: step)
    finally show ?thesis .
  next
    case False
    have step: "map_of (count_tag x obj) tag = map_of obj tag"
      using False by (rule map_of_count_tag_other)
    then have pre: "map_of (count_tag x obj) tag = None
        \<or> (\<exists>n. map_of (count_tag x obj) tag = Some (Num n))" using Cons.prems by simp
    have "map_of (fold count_tag (x # l) obj) tag = map_of (fold count_tag l (count_tag x obj)) tag"
      by simp
    also have "\<dots> = (if count_list l tag = 0 then map_of (count_tag x obj) tag
        else Some (Num (number_of (map_of (count_tag x obj) tag) + count_list l tag)))"
      by (rule Cons.IH[OF pre])
    also have "\<dots> = (if count_list (x # l) tag = 0 then map_of obj tag
        else Some (Num (number_of (map_of obj tag) + count_list (x # l) tag)))"
      using False by (simp add: step)
    finally show ?thesis .
  qed
qed

lemma distinct_count_tag: "distinct (map fst obj) \<Longrightarrow> distinct (map fst (count_tag x obj))"
  by (simp add: count_tag_def distinct_update split: option.splits)

lemma distinct_fold_count_tag:
  "distinct (map fst obj) \<Longrightarrow> distinct (map fst (fold count_tag l obj))"
proof (induction l arbitrary: obj)
  case Nil
  then show ?case by simp
next
  case (Cons x l)
  have "distinct (map fst (fold count_tag l (count_tag x obj)))"
    using Cons.prems by (intro Cons.IH distinct_count_tag)
  then show ?case by simp
qed

lemma map_of_count_tags:
  assumes "tag \<notin> set Object_prototype"
    and "map_of obj tag = None \<or> (\<exists>n. map_of obj tag = Some (Num n))"
  shows "map_of (count_tags t obj) tag
     = (if occurrences [t] tag = 0 then map_of obj tag
        else Some (Num (number_of (map_of obj tag) + occurrences [t] tag)))"
  unfolding count_tags_def map_of_fold_count_tag[OF assms] by (simp add: occurrences_def)

lemma occurrences_Cons: "occurrences (t # ts) tag = occurrences [t] tag + occurrences ts tag"
  by (simp add: occurrences_def)

lemma map_of_fold_count_tags:
  assumes "tag \<notin> set Object_prototype"
    and "map_of obj tag = None \<or> (\<exists>n. map_of obj tag = Some (Num n))"
  shows "map_of (fold count_tags ts obj) tag
     = (if occurrences ts tag = 0 then map_of obj tag
        else Some (Num (number_of (map_of obj tag) + occurrences ts tag)))"
  using assms(2)
proof (induction ts arbitrary: obj)
  case Nil
  then show ?case by (simp add: occurrences_def)
next
  case (Cons t ts)
  note step = map_of_count_tags[OF assms(1) Cons.prems]
  have pre: "map_of (count_tags t obj) tag = None
      \<or> (\<exists>n. map_of (count_tags t obj) tag = Some (Num n))"
    using Cons.prems unfolding step by auto
  have "map_of (fold count_tags (t # ts) obj) tag = map_of (fold count_tags ts (count_tags t obj)) tag"
    by simp
  also have "\<dots> = (if occurrences ts tag = 0 then map_of (count_tags t obj) tag
      else Some (Num (number_of (map_of (count_tags t obj) tag) + occurrences ts tag)))"
    by (rule Cons.IH[OF pre])
  also have "\<dots> = (if occurrences (t # ts) tag = 0 then map_of obj tag
      else Some (Num (number_of (map_of obj tag) + occurrences (t # ts) tag)))"
    unfolding occurrences_Cons[of t ts] step using Cons.prems by auto
  finally show ?case .
qed

lemma distinct_fold_count_tags:
  "distinct (map fst obj) \<Longrightarrow> distinct (map fst (fold count_tags ts obj))"
proof (induction ts arbitrary: obj)
  case Nil
  then show ?case by simp
next
  case (Cons t ts)
  have "distinct (map fst (count_tags t obj))"
    unfolding count_tags_def using Cons.prems by (rule distinct_fold_count_tag)
  then have "distinct (map fst (fold count_tags ts (count_tags t obj)))" by (rule Cons.IH)
  then show ?case by simp
qed

lemma sum_list_insort_key:
  fixes g :: "'a \<Rightarrow> nat"
  shows "sum_list (map g (insort_key f x ys)) = g x + sum_list (map g ys)"
  by (induction ys) simp_all

lemma sum_list_sort_key:
  fixes g :: "'a \<Rightarrow> nat"
  shows "sum_list (map g (sort_key f xs)) = sum_list (map g xs)"
  by (induction xs) (simp_all add: sum_list_insort_key)

lemma occurrences_sort_key: "occurrences (sort_key f ts) tag = occurrences ts tag"
  by (simp add: occurrences_def sum_list_sort_key)

lemma fallback_tasksByTag:
  "tasksByTag (fallback_analytics tasks clock uid now nw)
     = fold count_tags (take 1000 (sort_key (\<lambda>t. - inserted_at t) (owner_rows tasks uid))) []"
  by (simp add: fallback_analytics_def Let_def recentTasks_eq)

lemma set_group_count: "set (group_count ks) = (\<lambda>k. (k, count_list ks k)) ` set ks"
  by (simp add: group_count_def)

lemma keys_group_count: "map fst (group_count ks) = remdups ks"
  by (simp add: group_count_def comp_def)

lemma distinct_keys_sort_key:
  "distinct (map fst xs) \<Longrightarrow> distinct (map fst (sort_key f xs))"
  by (simp add: distinct_map)

lemma tag_counts_props:
  fixes rows tie_order
  defines "b \<equiv> tag_counts tie_order rows"
  shows "length b = min 20 (card {tag. 0 < occurrences rows tag})"
    and "distinct (map fst b)"
    and "\<forall>(tag, n) \<in> set b. n = occurrences rows tag \<and> 0 < n"
    and "sorted_wrt (\<lambda>x y. snd y \<le> snd x) b"
    and "\<forall>tag. 0 < occurrences rows tag \<and> tag \<notin> fst ` set b
           \<longrightarrow> (\<forall>(k, n) \<in> set b. occurrences rows tag \<le> n)"
proof -
  let ?ks = "tag_elements rows"
  let ?key = "\<lambda>(tag, tag_count). - int tag_count"
  let ?S = "sort_key ?key (sort_key (\<lambda>(tag, tag_count). tie_order tag) (group_count ?ks))"
  have b: "b = take 20 ?S" by (simp add: b_def tag_counts_def)
  have setS: "set ?S = (\<lambda>k. (k, occurrences rows k)) ` set ?ks"
    by (simp add: set_group_count count_tag_elements)
  have "{tag. 0 < occurrences rows tag} = set ?ks"
    by (auto simp: occurrences_pos_iff)
  moreover have "length ?S = card (set ?ks)"
    by (simp add: group_count_def length_remdups_card_conv)
  ultimately show "length b = min 20 (card {tag. 0 < occurrences rows tag})"
    by (simp add: b min.commute)
  have dS: "distinct (map fst ?S)"
    by (intro distinct_keys_sort_key) (simp add: keys_group_count)
  show "distinct (map fst b)"
    unfolding b using dS by (simp add: take_map[symmetric] distinct_take)
  have sub: "set b \<subseteq> set ?S" unfolding b by (rule set_take_subset)
  show "\<forall>(tag, n) \<in> set b. n = occurrences rows tag \<and> 0 < n"
    using sub setS occurrences_pos_iff by fastforce
  have "sorted (map ?key ?S)" by (rule sorted_sort_key)
  then have srt: "sorted_wrt (\<lambda>x y. snd y \<le> snd x) ?S"
    unfolding sorted_map by (rule sorted_wrt_mono_rel[rotated]) auto
  then show "sorted_wrt (\<lambda>x y. snd y \<le> snd x) b"
    unfolding b by (rule sorted_wrt_take)
  have split: "sorted_wrt (\<lambda>x y. snd y \<le> snd x) (take 20 ?S @ drop 20 ?S)"
    using srt by simp
  show "\<forall>tag. 0 < occurrences rows tag \<and> tag \<notin> fst ` set b
           \<longrightarrow> (\<forall>(k, n) \<in> set b. occurrences rows tag \<le> n)"
  proof (intro allI impI, elim conjE)
    fix tag assume pos: "0 < occurrences rows tag" and out: "tag \<notin> fst ` set b"
    have "(tag, occurrences rows tag) \<in> (\<lambda>k. (k, occurrences rows k)) ` set ?ks"
      using pos by (simp add: occurrences_pos_iff)
    then have "(tag, occurrences rows tag) \<in> set ?S"
      unfolding setS .
    then have "(tag, occurrences rows tag) \<in> set (take 20 ?S) \<union> set (drop 20 ?S)"
      by (metis append_take_drop_id set_append)
    then have "(tag, occurrences rows tag) \<in> set (drop 20 ?S)"
      using out unfolding b by force
    then show "\<forall>(k, n) \<in> set b. occurrences rows tag \<le> n"
      using split unfolding b sorted_wrt_append by fastforce
  qed
qed

lemma sample_small:
  "length rows \<le> 1000 \<Longrightarrow> occurrences (take 1000 (sort_key f rows)) tag = occurrences rows tag"
  by (simp add: occurrences_sort_key)

text \<open>
  On the fallback path the counted tasks are the at most 1000 most recently created tasks
  of the owner. A tag that is not the name of a member of \<open>Object.prototype\<close> has a
  counter exactly when it occurs in them, holding the number of its occurrences, as an
  exact string.
\<close>

lemma fallback_tag_counts:
  "(let rows = owner_rows tasks uid;
        sample = take 1000 (sort_key (\<lambda>t. - inserted_at t) rows);
        f = tasksByTag (fallback_analytics tasks clock uid now next_week)
    in distinct (map fst f)
     \<and> (\<forall>tag. tag \<notin> set Object_prototype \<longrightarrow>
           map_of f tag
             = (if occurrences sample tag = 0 then None else Some (Num (occurrences sample tag))))
     \<and> (length rows \<le> 1000 \<longrightarrow> (\<forall>tag. occurrences sample tag = occurrences rows tag)))"
  unfolding Let_def fallback_tasksByTag
  by (simp add: distinct_fold_count_tags map_of_fold_count_tags occurrences_sort_key)

lemma tagged_rows: "owner_rows tagged_tasks ''u'' = tagged_tasks"
  by (simp add: owner_rows_def tagged_tasks_def example_task_def)

lemma tagged_example:
  "tasksByTag (fallback_analytics tagged_tasks clock ''u'' now nw)
     = [(''b'', Num 2), (''B'', Num 1), (''a'', Num 2)]"
  unfolding fallback_tasksByTag tagged_rows
  by (simp add: tagged_tasks_def example_task_def count_tags_def extras_tags_def count_tag_def
      Object_prototype_def)

text \<open>
  The tag statement of the SQL function has no tie-break. Whatever order of the groups
  that is descending in the counts the executor produces, some \<open>tie_order\<close> yields it;
  and two tie orders can keep different tags: of 21 tags that occur once each, one order
  drops \<open>u\<close> and the other drops \<open>t\<close>.
\<close>

lemma sort_key_unique:
  assumes "sorted (map f p)" "distinct (map f p)" "set p = set g" "distinct g"
  shows "sort_key f g = p"
proof -
  have inj: "inj_on f (set p)" using assms(2) by (simp add: distinct_map)
  have "distinct (map f (sort_key f g))"
    using inj assms(3,4) by (simp add: distinct_map)
  moreover have "sorted (map f (sort_key f g))" by (rule sorted_sort_key)
  moreover have "set (map f (sort_key f g)) = set (map f p)" using assms(3) by simp
  ultimately have "map f (sort_key f g) = map f p"
    using assms(1,2) by (intro sorted_distinct_set_unique) simp_all
  moreover have "inj_on f (set (sort_key f g) \<union> set p)" using inj assms(3) by simp
  ultimately show ?thesis using inj_on_map_eq_map by blast
qed

lemma takeWhile_index:
  assumes "distinct (map fst p)" "i < length p"
  shows "length (takeWhile (\<lambda>x. fst x \<noteq> fst (p ! i)) p) = i"
proof (rule le_antisym)
  show "length (takeWhile (\<lambda>x. fst x \<noteq> fst (p ! i)) p) \<le> i"
  proof (rule ccontr)
    assume "\<not> length (takeWhile (\<lambda>x. fst x \<noteq> fst (p ! i)) p) \<le> i"
    then have lt: "i < length (takeWhile (\<lambda>x. fst x \<noteq> fst (p ! i)) p)" by simp
    then have "takeWhile (\<lambda>x. fst x \<noteq> fst (p ! i)) p ! i = p ! i" by (rule takeWhile_nth)
    then have "p ! i \<in> set (takeWhile (\<lambda>x. fst x \<noteq> fst (p ! i)) p)"
      using lt by (metis nth_mem)
    then show False by (auto dest: set_takeWhileD)
  qed
  show "i \<le> length (takeWhile (\<lambda>x. fst x \<noteq> fst (p ! i)) p)"
  proof (rule length_takeWhile_less_P_nth)
    fix j assume "j < i"
    then have "j < length (map fst p)" "i < length (map fst p)" "j \<noteq> i"
      using assms(2) by simp_all
    then have "map fst p ! j \<noteq> map fst p ! i"
      using assms(1) nth_eq_iff_index_eq by blast
    then show "fst (p ! j) \<noteq> fst (p ! i)" using \<open>j < i\<close> assms(2) by simp
  next
    show "i \<le> length p" using assms(2) by simp
  qed
qed

lemma tag_counts_any_order:
  assumes p: "set p = set (group_count (tag_elements rows))" "distinct (map fst p)"
    and s: "sorted_wrt (\<lambda>x y. snd y \<le> snd x) p"
  shows "\<exists>tie_order. tag_counts tie_order rows = take 20 p"
proof -
  define rank where "rank tag = length (takeWhile (\<lambda>x. fst x \<noteq> tag) p)" for tag
  let ?g = "group_count (tag_elements rows)"
  have idx: "rank (fst (p ! i)) = i" if "i < length p" for i
    unfolding rank_def using p(2) that by (rule takeWhile_index)
  have m: "map (\<lambda>(tag, tag_count). rank tag) p = [0..<length p]"
    by (rule nth_equalityI) (simp_all add: idx case_prod_beta)
  have "sort_key (\<lambda>(tag, tag_count). rank tag) ?g = p"
  proof (rule sort_key_unique)
    show "sorted (map (\<lambda>(tag, tag_count). rank tag) p)" unfolding m by simp
    show "distinct (map (\<lambda>(tag, tag_count). rank tag) p)" unfolding m by simp
    show "set p = set ?g" by (rule p(1))
    show "distinct ?g" using distinct_map keys_group_count[of "tag_elements rows"]
      by (metis distinct_remdups)
  qed
  moreover have "sort_key (\<lambda>(tag, tag_count). - int tag_count) p = p"
  proof (rule sort_key_id_if_sorted)
    show "sorted (map (\<lambda>(tag, tag_count). - int tag_count) p)"
      unfolding sorted_map using s by (rule sorted_wrt_mono_rel[rotated]) auto
  qed
  ultimately have "tag_counts rank rows = take 20 p" by (simp add: tag_counts_def)
  then show ?thesis by blast
qed

lemma letter_groups:
  "group_count (tag_elements (owner_rows letter_tasks ''u''))
     = map (\<lambda>c. ([c], 1)) ''abcdefghijklmnopqrstu''"
  by (simp add: owner_rows_def letter_tasks_def example_task_def tag_elements_def extras_tags_def
      group_count_def)

lemma tie_order_example:
  "map fst (tag_counts first_come (owner_rows letter_tasks ''u''))
     = map (\<lambda>c. [c]) ''abcdefghijklmnopqrst''
   \<and> map fst (tag_counts u_first (owner_rows letter_tasks ''u''))
     = map (\<lambda>c. [c]) ''uabcdefghijklmnopqrs''"
  unfolding tag_counts_def letter_groups by (simp add: first_come_def u_first_def)

lemma constructor_rows: "owner_rows constructor_tasks ''u'' = constructor_tasks"
  by (simp add: owner_rows_def constructor_tasks_def example_task_def)

text \<open>
  Claim C6 fails on both strategies. On the fallback path the counters are members of a
  plain object, which inherits the members of \<open>Object.prototype\<close>. For an owner whose
  only task has the single tag \<open>constructor\<close>, the first read of
  \<open>tasksByTag["constructor"]\<close> yields the inherited function, which is truthy, and
  \<open>(tasksByTag[tag] || 0) + 1\<close> is that function's text followed by \<open>1\<close>: the counter
  of the tag is a string, not the number 1 of its occurrences. On the bulk path no
  \<open>tasksByTag\<close> is produced at all: \<open>get_task_analytics\<close> ends in an error on every
  call, before its tag statement.
\<close>

theorem C6_inherited_member_tag:
  "occurrences (owner_rows constructor_tasks ''u'') ''constructor'' = 1
   \<and> tasksByTag (fallback_analytics constructor_tasks clock ''u'' now next_week)
       = [(''constructor'', Str)]
   \<and> get_task_analytics tasks db_clock tie_order uid now' next_week'
       = Inl (undefined_column ''extras'')"
proof -
  have "occurrences constructor_tasks ''constructor'' = 1"
    by (simp add: occurrences_def constructor_tasks_def example_task_def extras_tags_def)
  moreover have "tasksByTag (fallback_analytics constructor_tasks clock ''u'' now next_week)
       = [(''constructor'', Str)]"
    unfolding fallback_tasksByTag constructor_rows
    by (simp add: constructor_tasks_def example_task_def count_tags_def extras_tags_def
        count_tag_def Object_prototype_def)
  ultimately show ?thesis by (simp add: get_task_analytics_raises constructor_rows)
qed

section \<open>Monthly trends, upcoming deadlines and the fallback result at concrete inputs\<close>

lemma bulk_trends_empty: "monthly_trends (owner_rows [] uid) db_clock = []"
  by (simp add: Let_def monthly_trends_def owner_rows_def)

lemma fallback_trends_empty:
  "monthlyTrends (fallback_analytics [] clock uid now nw)
     = map (\<lambda>(m, compl, creat). \<lparr>month = m, completed = compl, created = creat\<rparr>)
         (fold (\<lambda>m md. AList.update m (0, 0) md) (last6Months clock) [])"
  by (simp add: fallback_analytics_def Let_def recentTasks_eq owner_rows_def monthlyTrends_of_def)

text \<open>
  Claim C3 fails on both strategies. In the SQL function \<open>monthly_trends\<close>, the value
  for \<open>monthlyTrends\<close>, lists only the months in which the owner has tasks, so for an
  owner without tasks it is empty. On the
  fallback path the six month keys come from \<open>setMonth(getMonth() - i)\<close> on today's
  date, which rolls over into the following month when the target month has no such day:
  on 2024-03-31 the keys are 2023-10, 2023-12, 2023-12, 2024-01, 2024-03, 2024-03, and
  the report has four buckets, without 2023-11 and 2024-02.
\<close>

theorem C3_monthly_trends_not_six:
  "monthly_trends (owner_rows [] uid) db_clock = []
   \<and> monthlyTrends (fallback_analytics [] (utc 2024 3 31) uid now next_week)
       = [\<lparr>month = (2023, 10), completed = 0, created = 0\<rparr>,
          \<lparr>month = (2023, 12), completed = 0, created = 0\<rparr>,
          \<lparr>month = (2024, 1), completed = 0, created = 0\<rparr>,
          \<lparr>month = (2024, 3), completed = 0, created = 0\<rparr>]"
  unfolding bulk_trends_empty fallback_trends_empty last6_example by simp

lemma sort_key_take_sorted: "sort_key f (take n (sort_key f xs)) = take n (sort_key f xs)"
proof -
  have "sorted (map f (sort_key f xs))" by (rule sorted_sort_key)
  then have "sorted (take n (map f (sort_key f xs)))" by (rule sorted_wrt_take)
  then have "sorted (map f (take n (sort_key f xs)))" by (simp add: take_map)
  then show ?thesis by (rule sort_key_id_if_sorted)
qed

text \<open>
  What the SQL function selects as upcoming deadlines: the first ten, by due date, of the
  owner's tasks that are not done and have a due date in the closed window.
\<close>

lemma upcoming_deadlines_selection:
  "upcoming_deadlines rows p_now p_next_week
     = map (\<lambda>t. \<lparr>taskId = task_id t, dl_title = title t, dueDate = extras_due_date t,
                  dl_priority = coalesce_priority t\<rparr>)
         (take 10 (sort_key due_key
            (filter (\<lambda>t. status t \<noteq> Done
                        \<and> (\<exists>d. extras_due_date t = Some d \<and> p_now \<le> d \<and> d \<le> p_next_week)) rows)))"
proof -
  have "(\<lambda>t. status t \<noteq> Done
            \<and> (case extras_due_date t of None \<Rightarrow> False | Some d \<Rightarrow> p_now \<le> d \<and> d \<le> p_next_week))
      = (\<lambda>t. status t \<noteq> Done
            \<and> (\<exists>d. extras_due_date t = Some d \<and> p_now \<le> d \<and> d \<le> p_next_week))"
    by (auto simp: fun_eq_iff split: option.splits)
  then show ?thesis
    unfolding upcoming_deadlines_def sort_key_take_sorted by simp
qed

text \<open>
  The fallback's request for the upcoming tasks is rejected by the database, its data is
  \<open>null\<close> and the handler reads the empty list, whatever the table is.
\<close>

lemma upcomingTasks_null: "upcomingTasks tbl uid now nextWeekISO = None"
  by (simp add: upcomingTasks_def owner_query neq_status_def where_rows_def gte_due_date_def
      lt_due_date_def order_due_date_asc_def limit_def select_data_def)

lemma fallback_upcoming_empty:
  "upcomingDeadlines (fallback_analytics tbl clock uid now nextWeekISO) = []"
  by (simp add: fallback_analytics_def Let_def upcomingTasks_null)

lemma boundary_rows: "owner_rows boundary_tasks ''u'' = boundary_tasks"
  by (simp add: owner_rows_def boundary_tasks_def example_task_def)

lemma boundary_due: "extras_due_date (example_task s p d tg ins) = d"
  "extras_priority (example_task s p d tg ins) = p"
  "status (example_task s p d tg ins) = s" "user_id (example_task s p d tg ins) = ''u''"
  "task_id (example_task s p d tg ins) = ''t''" "title (example_task s p d tg ins) = ''x''"
  by (simp_all add: example_task_def extras_due_date_def extras_priority_def)

lemma utc_less: "utc 2024 3 1 < utc 2024 3 8"
  by code_simp

lemma week_example:
  "setDate (utc 2024 3 1) (getDate (utc 2024 3 1) + 7) = utc 2024 3 8"
  "utc 2024 3 8 = utc 2024 3 1 + 7 * msPerDay"
  by code_simp+

text \<open>
  Claim C4 fails on the fallback path at the upper bound. For \<open>now\<close> = 2024-03-01T00:00Z
  the end of the window is 2024-03-08T00:00Z, seven days later. A pending task due at
  that instant is selected by the SQL function (\<open><= p_next_week\<close>) and left out by the
  fallback query (\<open>.lt("extras->due_date", nextWeekISO)\<close>): the query asks for due dates
  before the end of the window, and the database rejects its two filters on
  \<open>extras->due_date\<close>, so the fallback's list is empty.
\<close>

theorem C4_upper_bound_excluded:
  "setDate (utc 2024 3 1) (getDate (utc 2024 3 1) + 7) = utc 2024 3 8
   \<and> upcoming_deadlines (owner_rows boundary_tasks ''u'') (utc 2024 3 1) (utc 2024 3 8)
     = [\<lparr>taskId = ''t'', dl_title = ''x'', dueDate = Some (utc 2024 3 8), dl_priority = ''medium''\<rparr>]
   \<and> upcomingDeadlines (fallback_analytics boundary_tasks clock ''u'' (utc 2024 3 1) (utc 2024 3 8)) = []"
proof -
  have b: "upcoming_deadlines (owner_rows boundary_tasks ''u'') (utc 2024 3 1) (utc 2024 3 8)
     = [\<lparr>taskId = ''t'', dl_title = ''x'', dueDate = Some (utc 2024 3 8), dl_priority = ''medium''\<rparr>]"
    using utc_less
    by (simp add: upcoming_deadlines_def boundary_rows)
       (simp add: boundary_tasks_def boundary_due coalesce_priority_def)
  have f: "upcomingDeadlines (fallback_analytics boundary_tasks clock ''u'' (utc 2024 3 1) (utc 2024 3 8)) = []"
    by (rule fallback_upcoming_empty)
  show ?thesis using b f week_example(1) by simp
qed

lemma uid_example_valid: "isValidUUID uid_example"
  by code_simp

lemma rpc_error_fields:
  "http_method request_rpc_error = ''GET''" "\<not> falsy (SUPABASE_URL request_rpc_error)"
  "\<not> falsy (SUPABASE_ANON_KEY request_rpc_error)" "createClient request_rpc_error = Returns ()"
  "getUser request_rpc_error = Returns \<lparr>user = Some uid_example, userError = None\<rparr>"
  "rpc request_rpc_error = Returns (RpcError ''column extras does not exist'')"
  "Date_now request_rpc_error = utc 2024 3 15" "tasks_table request_rpc_error = []"
  by (simp_all add: request_rpc_error_def falsy_def)

lemma admitted_empty: "rateLimitCheck u now [] = (True, [(u, [now])])"
  by (simp add: rateLimitCheck_def)

text \<open>
  Claim C7 fails: for an authenticated, validated, admitted request whose RPC call
  returns an error (as every call of \<open>get_task_analytics\<close> does), the handler computes
  the fallback report and returns the report object itself, which is not a \<open>Response\<close>:
  no success response with the report reaches the caller.
\<close>

theorem C7_fallback_returns_object:
  "fst (handler request_rpc_error [])
     = Object (fallback_analytics [] (utc 2024 3 15) uid_example (utc 2024 3 15)
                 (setDate (utc 2024 3 15) (getDate (utc 2024 3 15) + 7)))
   \<and> (\<forall>r. fst (handler request_rpc_error []) \<noteq> Response r)"
  by (simp add: handler_def try_block_def rpc_error_fields uid_example_valid admitted_empty Let_def)

section \<open>The rate limiter along a run\<close>

lemma stored_sweep:
  "distinct (map fst store) \<Longrightarrow>
   stored (sweep cutoff store) u = filter (\<lambda>time. time > cutoff) (stored store u)"
proof (induction store)
  case Nil
  then show ?case by (simp add: sweep_def stored_def)
next
  case (Cons a store)
  obtain k rs where a: "a = (k, rs)" by (cases a)
  have "k \<notin> fst ` set store" using Cons.prems by (simp add: a)
  then have none: "map_of store k = None" by (simp add: map_of_eq_None_iff)
  show ?case using Cons none
    by (auto simp: sweep_def stored_def a split: option.splits)
qed

lemma distinct_sweep: "distinct (map fst store) \<Longrightarrow> distinct (map fst (sweep cutoff store))"
proof -
  assume d: "distinct (map fst store)"
  have "map fst (sweep cutoff store)
      = map fst (filter (\<lambda>(key, rs). filter (\<lambda>time. time > cutoff) rs \<noteq> []) store)"
    unfolding sweep_def by (induction store) auto
  then show ?thesis using d by (simp add: distinct_map_filter)
qed

lemma stored_update:
  "stored (AList.update u rs store) v = (if v = u then rs else stored store v)"
  by (simp add: stored_def update_conv')

lemma filter_gt_filter_gt:
  fixes c d :: int
  shows "d \<le> c \<Longrightarrow> filter (\<lambda>time. time > c) (filter (\<lambda>time. time > d) xs) = filter (\<lambda>time. time > c) xs"
  by (induction xs) auto

lemma limiter_inv_mono: "limiter_inv store admitted T \<Longrightarrow> T \<le> T' \<Longrightarrow> limiter_inv store admitted T'"
  unfolding limiter_inv_def by (meson diff_right_mono order_trans)

lemma rateLimitCheck_reject:
  "\<not> fst (rateLimitCheck u now store) \<Longrightarrow> snd (rateLimitCheck u now store) = store"
  by (simp add: rateLimitCheck_def Let_def split: if_splits)

lemma rateLimitCheck_fst:
  "fst (rateLimitCheck u now store)
     = (length (filter (\<lambda>time. time > now - 60000) (stored store u)) < 5)"
  by (auto simp: rateLimitCheck_def Let_def stored_def)

lemma rateLimitCheck_stored:
  assumes "distinct (map fst store)" "fst (rateLimitCheck u now store)"
  shows "stored (snd (rateLimitCheck u now store)) v
     = (if v = u then filter (\<lambda>time. time > now - 60000) (stored store u) @ [now]
        else if length (AList.update u (filter (\<lambda>time. time > now - 60000) (stored store u) @ [now]) store) > 10000
        then filter (\<lambda>time. time > now - 120000) (stored store v) else stored store v)"
proof -
  let ?recent = "filter (\<lambda>time. time > now - 60000) (stored store u)"
  let ?store' = "AList.update u (?recent @ [now]) store"
  have d': "distinct (map fst ?store')" using assms(1) by (simp add: distinct_update)
  have lt: "length ?recent < 5" using assms(2) by (simp add: rateLimitCheck_fst)
  have snd_eq: "snd (rateLimitCheck u now store)
      = (if length ?store' > 10000 then sweep (now - 120000) ?store' else ?store')"
    using lt by (simp add: rateLimitCheck_def Let_def stored_def)
  have keep: "filter (\<lambda>time. time > now - 120000) (?recent @ [now]) = ?recent @ [now]"
    by (rule filter_True) auto
  show ?thesis
    unfolding snd_eq using keep by (simp add: stored_sweep[OF d'] stored_update del: filter_append filter_filter)
qed

lemma distinct_rateLimitCheck:
  "distinct (map fst store) \<Longrightarrow> distinct (map fst (snd (rateLimitCheck u now store)))"
  by (simp add: rateLimitCheck_def Let_def distinct_update distinct_sweep)

lemma limiter_inv_step:
  assumes inv: "limiter_inv store admitted T" and le: "T \<le> now"
  shows "limiter_inv (snd (rateLimitCheck u now store))
           (if fst (rateLimitCheck u now store) then admitted @ [(u, now)] else admitted) now"
proof (cases "fst (rateLimitCheck u now store)")
  case False
  then show ?thesis using limiter_inv_mono[OF inv le] by (simp add: rateLimitCheck_reject)
next
  case True
  have d: "distinct (map fst store)" using inv by (simp add: limiter_inv_def)
  have eqs: "\<And>v c. T - 60000 \<le> c \<Longrightarrow> filter (\<lambda>time. time > c) (stored store v)
              = filter (\<lambda>time. time > c) (map snd (filter (\<lambda>x. fst x = v) admitted))"
    using inv by (simp add: limiter_inv_def)
  have bnd: "\<And>v time. time \<in> set (stored store v) \<Longrightarrow> time \<le> T"
    using inv by (simp add: limiter_inv_def)
  note st = rateLimitCheck_stored[OF d True]
  have 1: "distinct (map fst (snd (rateLimitCheck u now store)))"
    using d by (rule distinct_rateLimitCheck)
  have 2: "filter (\<lambda>time. time > c) (stored (snd (rateLimitCheck u now store)) v)
         = filter (\<lambda>time. time > c) (map snd (filter (\<lambda>x. fst x = v) (admitted @ [(u, now)])))"
    if c: "now - 60000 \<le> c" for v c
  proof -
    have c': "T - 60000 \<le> c" using c le by simp
    have c2: "now - 120000 \<le> c" using c by simp
    show ?thesis
      using eqs[OF c', of v] eqs[OF c', of u] filter_gt_filter_gt[OF c] filter_gt_filter_gt[OF c2]
      by (simp add: st)
  qed
  have 3: "time \<le> now" if "time \<in> set (stored (snd (rateLimitCheck u now store)) v)" for v time
    using that bnd le by (fastforce simp: st split: if_splits)
  show ?thesis using True 1 2 3 unfolding limiter_inv_def by simp
qed

lemma run_limiter_inv:
  "limiter_inv store admitted T \<Longrightarrow> sorted (map snd calls) \<Longrightarrow>
   \<forall>c \<in> set calls. T \<le> snd c \<and> snd c \<le> now \<Longrightarrow> T \<le> now \<Longrightarrow>
   limiter_inv (fst (run_limiter calls (store, admitted))) (snd (run_limiter calls (store, admitted))) now"
proof (induction calls arbitrary: store admitted T)
  case Nil
  then show ?case using limiter_inv_mono by simp
next
  case (Cons a calls)
  obtain u t where a: "a = (u, t)" by (cases a)
  have Tt: "T \<le> t" and tn: "t \<le> now" using Cons.prems(3) by (simp_all add: a)
  have step: "limiter_inv (snd (rateLimitCheck u t store))
      (if fst (rateLimitCheck u t store) then admitted @ [(u, t)] else admitted) t"
    using Cons.prems(1) Tt by (rule limiter_inv_step)
  have srt: "sorted (map snd calls)" using Cons.prems(2) by simp
  have bnds: "\<forall>c \<in> set calls. t \<le> snd c \<and> snd c \<le> now"
    using Cons.prems(2,3) by (auto simp: a)
  have run: "run_limiter (a # calls) (store, admitted)
      = run_limiter calls (snd (rateLimitCheck u t store),
          if fst (rateLimitCheck u t store) then admitted @ [(u, t)] else admitted)"
    by (cases "rateLimitCheck u t store") (auto simp: a)
  show ?case unfolding run using Cons.IH[OF step srt bnds tn] .
qed

lemma limiter_inv_init: "limiter_inv [] [] T"
  by (simp add: limiter_inv_def stored_def)

lemma limiter_run_spec:
  assumes "sorted (map snd calls)" and "\<forall>c \<in> set calls. snd c \<le> now"
    and "run_limiter calls ([], []) = (store, admitted)"
  shows "(\<not> fst (rateLimitCheck u now store) \<longleftrightarrow> 5 \<le> length (admitted_within admitted u now))
    \<and> (\<not> fst (rateLimitCheck u now store) \<longrightarrow> snd (rateLimitCheck u now store) = store)
    \<and> (fst (rateLimitCheck u now store) \<longrightarrow>
         length (stored (snd (rateLimitCheck u now store)) u) \<le> 5
       \<and> (\<forall>time \<in> set (stored (snd (rateLimitCheck u now store)) u). now - 60000 < time \<and> time \<le> now))"
proof -
  define T where "T = (if calls = [] then now else snd (hd calls))"
  have Tn: "T \<le> now" using assms(2) by (cases calls) (auto simp: T_def)
  have bnds: "\<forall>c \<in> set calls. T \<le> snd c \<and> snd c \<le> now"
    using assms(1,2) by (cases calls) (auto simp: T_def)
  have inv: "limiter_inv store admitted now"
    using run_limiter_inv[OF limiter_inv_init assms(1) bnds Tn] assms(3) by simp
  have d: "distinct (map fst store)" using inv by (simp add: limiter_inv_def)
  have eq: "filter (\<lambda>time. time > now - 60000) (stored store u) = admitted_within admitted u now"
    using inv by (simp add: limiter_inv_def admitted_within_def)
  have bnd: "\<forall>time \<in> set (stored store u). time \<le> now" using inv by (simp add: limiter_inv_def)
  have a: "\<not> fst (rateLimitCheck u now store) \<longleftrightarrow> 5 \<le> length (admitted_within admitted u now)"
    by (simp add: rateLimitCheck_fst eq not_less)
  have c: "length (stored (snd (rateLimitCheck u now store)) u) \<le> 5
       \<and> (\<forall>time \<in> set (stored (snd (rateLimitCheck u now store)) u). now - 60000 < time \<and> time \<le> now)"
    if ok: "fst (rateLimitCheck u now store)"
    using ok bnd by (auto simp: rateLimitCheck_stored[OF d ok] rateLimitCheck_fst)
  show ?thesis using a c rateLimitCheck_reject by blast
qed

text \<open>
  Claim C10. Along any run of the limiter from the empty store in which the clock does not
  go back, at a call of identity \<open>u\<close> at time \<open>now\<close> (not before the earlier calls):
  the call is rejected exactly when at least 5 previously admitted calls of \<open>u\<close> have a
  time later than \<open>now - 60000\<close>; a rejected call leaves the store unchanged; after an
  admitted call the list stored for \<open>u\<close> has at most 5 times, each later than
  \<open>now - 60000\<close> and not later than \<open>now\<close>.
\<close>

theorem C10_rate_limiter:
  assumes "sorted (map snd calls)" and "\<forall>c \<in> set calls. snd c \<le> now"
    and "run_limiter calls ([], []) = (store, admitted)"
  shows "(\<not> fst (rateLimitCheck u now store) \<longleftrightarrow> 5 \<le> length (admitted_within admitted u now))
    \<and> (\<not> fst (rateLimitCheck u now store) \<longrightarrow> snd (rateLimitCheck u now store) = store)
    \<and> (fst (rateLimitCheck u now store) \<longrightarrow>
         length (stored (snd (rateLimitCheck u now store)) u) \<le> 5
       \<and> (\<forall>time \<in> set (stored (snd (rateLimitCheck u now store)) u).
             now - 60000 < time \<and> time \<le> now))"
  using assms by (rule limiter_run_spec)

lemma run_limiter_calls:
  "run_limiter limiter_calls ([], []) = ([(''a'', [0, 1, 2, 3, 4])], limiter_calls)"
  by (simp add: limiter_calls_def rateLimitCheck_def)

theorem C10_rate_limiter_witness:
  "sorted (map snd limiter_calls) \<and> list_all (\<lambda>c. snd c \<le> 5) limiter_calls
   \<and> run_limiter limiter_calls ([], []) = ([(''a'', [0, 1, 2, 3, 4])], limiter_calls)
   \<and> 5 \<le> length (admitted_within limiter_calls ''a'' 5)
   \<and> \<not> fst (rateLimitCheck ''a'' 5 [(''a'', [0, 1, 2, 3, 4])])
   \<and> snd (rateLimitCheck ''a'' 5 [(''a'', [0, 1, 2, 3, 4])]) = [(''a'', [0, 1, 2, 3, 4])]
   \<and> fst (rateLimitCheck ''b'' 5 [(''a'', [0, 1, 2, 3, 4])])
   \<and> length (stored (snd (rateLimitCheck ''b'' 5 [(''a'', [0, 1, 2, 3, 4])])) ''b'') \<le> 5"
proof -
  have s: "sorted (map snd limiter_calls)" by (simp add: limiter_calls_def)
  have b: "\<forall>c \<in> set limiter_calls. snd c \<le> 5" by (simp add: limiter_calls_def)
  have w: "5 \<le> length (admitted_within limiter_calls ''a'' 5)"
    by (simp add: admitted_within_def limiter_calls_def)
  have nb: "\<not> 5 \<le> length (admitted_within limiter_calls ''b'' 5)"
    by (simp add: admitted_within_def limiter_calls_def)
  note a = C10_rate_limiter[OF s b run_limiter_calls, of "''a''"]
  note b' = C10_rate_limiter[OF s b run_limiter_calls, of "''b''"]
  have "list_all (\<lambda>c. snd c \<le> 5) limiter_calls" by (simp add: limiter_calls_def)
  then show ?thesis using s w nb a b' run_limiter_calls by blast
qed

section \<open>Error responses of the handler\<close>

lemma handler_internal_failure:
  assumes "http_method req = ''GET''" "fst (try_block req store) = Inl msg"
  shows "fst (handler req store) = Response (json_response 500 (Json_error msg))"
  using assms by (cases "try_block req store") (simp add: handler_def)

text \<open>
  Claim C8, amended. A \<open>GET\<close> request that ends in an exception inside the handler is
  answered with status 500 and the JSON body \<open>{error: message}\<close>, where \<open>message\<close> is
  the message of the exception; nothing else of the exception is sent. So the responses
  to two such requests are identical exactly when the two messages are.
\<close>

theorem C8_failure_response:
  assumes "http_method req = ''GET''" and "fst (try_block req store) = Inl msg"
    and "http_method req' = ''GET''" and "fst (try_block req' store') = Inl msg'"
  shows "fst (handler req store) = Response (json_response 500 (Json_error msg))
    \<and> (fst (handler req store) = fst (handler req' store') \<longleftrightarrow> msg = msg')"
  using handler_internal_failure[OF assms(1,2)] handler_internal_failure[OF assms(3,4)]
  by (simp add: json_response_def)

lemma missing_env_try:
  "fst (try_block request_missing_env []) = Inl ''Missing required environment variables''"
  by (simp add: try_block_def request_missing_env_def request_rpc_error_def falsy_def)

lemma bad_url_try: "fst (try_block request_bad_url []) = Inl ''Invalid URL''"
  by (simp add: try_block_def request_bad_url_def request_rpc_error_def falsy_def)

lemma failure_methods:
  "http_method request_missing_env = ''GET''" "http_method request_bad_url = ''GET''"
  by (simp_all add: request_missing_env_def request_bad_url_def request_rpc_error_def)

theorem C8_failure_response_witness:
  "http_method request_missing_env = ''GET''
   \<and> fst (try_block request_missing_env []) = Inl ''Missing required environment variables''
   \<and> http_method request_bad_url = ''GET''
   \<and> fst (try_block request_bad_url []) = Inl ''Invalid URL''
   \<and> fst (handler request_missing_env [])
       = Response (json_response 500 (Json_error ''Missing required environment variables''))
   \<and> fst (handler request_missing_env []) \<noteq> fst (handler request_bad_url [])"
proof -
  have neq: "''Missing required environment variables'' \<noteq> ''Invalid URL''" by simp
  show ?thesis
    using C8_failure_response[OF failure_methods(1) missing_env_try failure_methods(2) bad_url_try]
      failure_methods missing_env_try bad_url_try neq
    by blast
qed

text \<open>
  Claim C8 as stated fails: missing environment variables and a throwing \<open>createClient\<close>
  are two internal failures, and the two responses differ, each carrying the message of
  its exception.
\<close>

theorem C8_message_leak_counterexample:
  "isl (fst (try_block request_missing_env [])) \<and> isl (fst (try_block request_bad_url []))
   \<and> fst (handler request_missing_env [])
       = Response (json_response 500 (Json_error ''Missing required environment variables''))
   \<and> fst (handler request_bad_url []) = Response (json_response 500 (Json_error ''Invalid URL''))
   \<and> fst (handler request_missing_env []) \<noteq> fst (handler request_bad_url [])"
  using handler_internal_failure[OF failure_methods(1) missing_env_try]
    handler_internal_failure[OF failure_methods(2) bad_url_try]
  by (simp add: missing_env_try bad_url_try json_response_def)

lemma handler_rate_limited:
  assumes "http_method req = ''GET''"
    and "\<not> falsy (SUPABASE_URL req)" and "\<not> falsy (SUPABASE_ANON_KEY req)"
    and "createClient req = Returns ()"
    and "getUser req = Returns \<lparr>user = Some uid, userError = None\<rparr>"
    and "isValidUUID uid"
    and "\<not> fst (rateLimitCheck uid (Date_now req) store)"
  shows "handler req store = (Response (json_response 429 (Json_error ''Rate limit exceeded'')), store)"
proof -
  have "rateLimitCheck uid (Date_now req) store = (False, store)"
    using assms(7) rateLimitCheck_reject[of uid "Date_now req" store]
    by (cases "rateLimitCheck uid (Date_now req) store") simp
  then show ?thesis using assms(1-6) by (simp add: handler_def try_block_def)
qed

text \<open>
  Claim C9, amended. A \<open>GET\<close> request of an authenticated user with a well-formed id
  that the rate limiter rejects is answered with status 429 and the JSON body
  \<open>{error: "Rate limit exceeded"}\<close> under the CORS and content-type headers, with no
  retry-after duration. Nothing is retried: the limiter's store is unchanged and the
  answer does not depend on the RPC outcome or on the table, which are not consulted.
\<close>

theorem C9_rate_limit_rejection:
  assumes "http_method req = ''GET''"
    and "\<not> falsy (SUPABASE_URL req)" and "\<not> falsy (SUPABASE_ANON_KEY req)"
    and "createClient req = Returns ()"
    and "getUser req = Returns \<lparr>user = Some uid, userError = None\<rparr>"
    and "isValidUUID uid"
    and "\<not> fst (rateLimitCheck uid (Date_now req) store)"
  shows "handler req store = (Response (json_response 429 (Json_error ''Rate limit exceeded'')), store)
    \<and> handler (req\<lparr>rpc := other_rpc, tasks_table := other_table\<rparr>) store = handler req store"
proof -
  have 1: "handler req store = (Response (json_response 429 (Json_error ''Rate limit exceeded'')), store)"
    using assms by (rule handler_rate_limited)
  have 2: "handler (req\<lparr>rpc := other_rpc, tasks_table := other_table\<rparr>) store
      = (Response (json_response 429 (Json_error ''Rate limit exceeded'')), store)"
    using assms by (intro handler_rate_limited) simp_all
  show ?thesis using 1 2 by simp
qed

lemma limited_check: "\<not> fst (rateLimitCheck uid_example (utc 2024 3 15) limited_store)"
  by (simp add: rateLimitCheck_def limited_store_def)

theorem C9_rate_limit_rejection_witness:
  "http_method request_rpc_error = ''GET''
   \<and> isValidUUID uid_example
   \<and> \<not> fst (rateLimitCheck uid_example (utc 2024 3 15) limited_store)
   \<and> handler request_rpc_error limited_store
       = (Response (json_response 429 (Json_error ''Rate limit exceeded'')), limited_store)"
proof -
  have c: "\<not> fst (rateLimitCheck uid_example (Date_now request_rpc_error) limited_store)"
    unfolding rpc_error_fields by (rule limited_check)
  show ?thesis
    using C9_rate_limit_rejection[OF rpc_error_fields(1,2,3,4,5) uid_example_valid c]
      rpc_error_fields(1) uid_example_valid limited_check
    by simp
qed

text \<open>
  Claim C9 as stated fails: the response to a rejected request carries no retry-after
  duration, neither as a header nor in its body.
\<close>

theorem C9_no_retry_after_counterexample:
  "\<not> fst (rateLimitCheck uid_example (Date_now request_rpc_error) limited_store)
   \<and> fst (handler request_rpc_error limited_store)
       = Response (json_response 429 (Json_error ''Rate limit exceeded''))
   \<and> retry_after (json_response 429 (Json_error ''Rate limit exceeded'')) = None
   \<and> body (json_response 429 (Json_error ''Rate limit exceeded'')) = Json_error ''Rate limit exceeded''"
proof -
  have c: "\<not> fst (rateLimitCheck uid_example (Date_now request_rpc_error) limited_store)"
    unfolding rpc_error_fields by (rule limited_check)
  have "retry_after (json_response 429 (Json_error ''Rate limit exceeded'')) = None"
    by (simp add: retry_after_def json_response_def corsHeaders_def)
  then show ?thesis
    using handler_rate_limited[OF rpc_error_fields(1,2,3,4,5) uid_example_valid c] c
    by (simp add: json_response_def)
qed

end
